theory Spec2Isabelle
  imports Main "HOL-Library.Sublist" "HOL-Library.Word"
begin

section \<open>JavaScript values and objects\<close>

text \<open>
  The numbers of the model are the integers from \<open>-2^53\<close> to \<open>2^53 - 1\<close>, the signed
  values \<open>sint n\<close> of the words \<open>n\<close> of 54 bits: each of them is a JavaScript number
  (a double holds it exactly), and \<open>String\<close> and \<open>JSON.stringify\<close> print it as its
  decimal digits. Fractions, larger numbers, \<open>NaN\<close> and the infinities are not modelled;
  the program does no arithmetic.
\<close>

type_synonym js_integer = "54 word"

text \<open>
  The values that environment variables, defaults and validated results can take.
  Strings are sequences of code units below 256. \<open>JNum n\<close> is the number whose value
  is the integer \<open>sint n\<close>. \<open>JObj\<close> is a plain data object, \<open>JArr\<close> an array.
  \<open>JBuiltin name\<close> is the member that every plain object inherits from
  \<open>Object.prototype\<close> under \<open>name\<close>; the program never looks inside it.
\<close>

datatype jsval =
    JUndefined
  | JNull
  | JBool bool
  | JNum js_integer
  | JStr string
  | JArr "jsval list"
  | JObj "(string \<times> jsval) list"
  | JBuiltin string

text \<open>A property key is a string or a symbol; two symbols are well known to the program.\<close>

datatype pkey =
    PStr string
  | PSymToStringTag
  | PSymIterator
  | PSym string

text \<open>\<open>String(prop)\<close>.\<close>

fun String_of :: "pkey \<Rightarrow> string" where
  "String_of (PStr s) = s"
| "String_of PSymToStringTag = ''Symbol(Symbol.toStringTag)''"
| "String_of PSymIterator = ''Symbol(Symbol.iterator)''"
| "String_of (PSym d) = ''Symbol('' @ d @ '')''"

text \<open>The exceptions the program raises, each with its message.\<close>

datatype js_error =
    ReferenceError string
  | TypeError string
  | Error string
  | OutsideModel string

text \<open>The names every plain object inherits from \<open>Object.prototype\<close>.\<close>

definition object_prototype_keys :: "string list" where
  "object_prototype_keys =
     [''constructor'', ''__defineGetter__'', ''__defineSetter__'', ''hasOwnProperty'',
      ''__lookupGetter__'', ''__lookupSetter__'', ''isPrototypeOf'',
      ''propertyIsEnumerable'', ''toString'', ''valueOf'', ''__proto__'',
      ''toLocaleString'']"

text \<open>
  A plain key/value object (the raw source, the bootstrap object): its own properties in
  property order. \<open>plain_in\<close> is the operator \<open>k in obj\<close>, \<open>plain_get\<close> is \<open>obj[k]\<close>.
\<close>

type_synonym rawenv = "(string \<times> jsval) list"

definition plain_in :: "string \<Rightarrow> rawenv \<Rightarrow> bool" where
  "plain_in k obj = (map_of obj k \<noteq> None \<or> k \<in> set object_prototype_keys)"

definition plain_get :: "rawenv \<Rightarrow> string \<Rightarrow> jsval" where
  "plain_get obj k =
     (case map_of obj k of
        Some v \<Rightarrow> v
      | None \<Rightarrow> if k \<in> set object_prototype_keys then JBuiltin k else JUndefined)"

text \<open>
  An object with property attributes: the object that \<open>validateSpecs\<close> fills and that the
  proxy wraps. Own properties are kept in property order, the order in which
  \<open>Object.keys\<close> and \<open>Object.entries\<close> list them.
\<close>

record pdesc =
  pd_value :: jsval
  pd_enumerable :: bool
  pd_writable :: bool
  pd_configurable :: bool

type_synonym jsobj = "(string \<times> pdesc) list"

text \<open>
  \<open>obj[k] = v\<close> on an object all of whose own properties are writable and whose prototype
  is \<open>Object.prototype\<close>: an own property gets the value, a missing one is created.
  The one exception is the name \<open>__proto__\<close>, which \<open>Object.prototype\<close> defines with a
  setter: when the object does not own a property of that name the assignment goes to the
  setter and creates no property. The setter replaces the object's prototype when \<open>v\<close> is
  an object or null; the model does not follow a replaced prototype, so what is stated below
  about the values that a spec resolves to is stated for specs with no key \<open>__proto__\<close>.
\<close>

fun obj_assign :: "jsobj \<Rightarrow> string \<Rightarrow> jsval \<Rightarrow> jsobj" where
  "obj_assign [] k v =
     (if k = ''__proto__'' then []
      else [(k, \<lparr>pd_value = v, pd_enumerable = True, pd_writable = True, pd_configurable = True\<rparr>)])"
| "obj_assign ((k', d) # rest) k v =
     (if k' = k then (k', d\<lparr>pd_value := v\<rparr>) # rest else (k', d) # obj_assign rest k v)"

text \<open>
  \<open>Object.defineProperty(obj, k, {value, enumerable, writable?, configurable?})\<close> on a
  property that is absent or configurable: an attribute the descriptor leaves out keeps its
  value on an existing property and is false on a new one.
\<close>

fun obj_define :: "jsobj \<Rightarrow> string \<Rightarrow> jsval \<Rightarrow> bool \<Rightarrow> bool option \<Rightarrow> bool option \<Rightarrow> jsobj" where
  "obj_define [] k v e w c =
     [(k, \<lparr>pd_value = v, pd_enumerable = e,
           pd_writable = (case w of Some b \<Rightarrow> b | None \<Rightarrow> False),
           pd_configurable = (case c of Some b \<Rightarrow> b | None \<Rightarrow> False)\<rparr>)]"
| "obj_define ((k', d) # rest) k v e w c =
     (if k' = k
      then (k', \<lparr>pd_value = v, pd_enumerable = e,
                 pd_writable = (case w of Some b \<Rightarrow> b | None \<Rightarrow> pd_writable d),
                 pd_configurable = (case c of Some b \<Rightarrow> b | None \<Rightarrow> pd_configurable d)\<rparr>) # rest
      else (k', d) # obj_define rest k v e w c)"

text \<open>\<open>prop in target\<close> and \<open>target[prop]\<close>; the objects of the program have no symbol keys.\<close>

fun target_in :: "pkey \<Rightarrow> jsobj \<Rightarrow> bool" where
  "target_in (PStr k) obj = (map_of obj k \<noteq> None \<or> k \<in> set object_prototype_keys)"
| "target_in _ obj = False"

fun target_get :: "jsobj \<Rightarrow> pkey \<Rightarrow> jsval" where
  "target_get obj (PStr k) =
     (case map_of obj k of
        Some d \<Rightarrow> pd_value d
      | None \<Rightarrow> if k \<in> set object_prototype_keys then JBuiltin k else JUndefined)"
| "target_get obj _ = JUndefined"

text \<open>\<open>Object.keys\<close>: the enumerable own string keys, in property order.\<close>

definition enumerable_keys :: "jsobj \<Rightarrow> string list" where
  "enumerable_keys obj = map fst (filter (\<lambda>(k, d). pd_enumerable d) obj)"

section \<open>Runtime detection\<close>

text \<open>
  The ambient globals that the \<open>runtime\<close> getters inspect at every call.
  \<open>h_window = None\<close>: \<open>typeof window\<close> is \<open>"undefined"\<close>; \<open>Some None\<close>: a window
  without \<open>__ZENV_CLIENT__\<close>; \<open>Some (Some b)\<close>: a window with the bootstrap object \<open>b\<close>.
  \<open>h_process = None\<close>: no \<open>process\<close>; \<open>Some None\<close>: \<open>process.env\<close> is undefined;
  \<open>Some (Some e)\<close>: \<open>process.env\<close> is \<open>e\<close>.
\<close>

record host =
  h_window :: "rawenv option option"
  h_process :: "rawenv option option"

datatype on_error = OnThrow | OnExit | OnReturn

datatype on_client_access_error = AccessThrow | AccessWarn | AccessIgnore

definition runtime_isServer :: "host \<Rightarrow> bool" where
  "runtime_isServer h = (h_window h = None \<and> h_process h \<noteq> None)"

definition runtime_isClient :: "host \<Rightarrow> bool" where
  "runtime_isClient h = (h_window h \<noteq> None)"

definition runtime_isNode :: "host \<Rightarrow> bool" where
  "runtime_isNode h = (h_process h \<noteq> None)"

definition runtime_isBrowser :: "host \<Rightarrow> bool" where
  "runtime_isBrowser h = (h_window h \<noteq> None)"

definition runtime_nodeEnv :: "host \<Rightarrow> string" where
  "runtime_nodeEnv h =
     (case h_process h of
        Some (Some e) \<Rightarrow> (case plain_get e ''NODE_ENV'' of JStr s \<Rightarrow> s | _ \<Rightarrow> ''production'')
      | _ \<Rightarrow> ''production'')"

definition runtime_isDevelopment :: "host \<Rightarrow> bool" where
  "runtime_isDevelopment h = (runtime_nodeEnv h = ''development'')"

definition runtime_isProduction :: "host \<Rightarrow> bool" where
  "runtime_isProduction h = (runtime_nodeEnv h = ''production'')"

definition runtime_isTest :: "host \<Rightarrow> bool" where
  "runtime_isTest h = (runtime_nodeEnv h = ''test'')"

text \<open>\<open>runtime.env\<close>; the result \<open>None\<close> is an undefined \<open>process.env\<close>.\<close>

definition runtime_env :: "host \<Rightarrow> rawenv option" where
  "runtime_env h =
     (case h_window h of
        Some (Some b) \<Rightarrow> Some b
      | _ \<Rightarrow> (case h_process h of Some e \<Rightarrow> e | None \<Rightarrow> Some []))"

definition runtime_defaultErrorBehavior :: "host \<Rightarrow> on_error" where
  "runtime_defaultErrorBehavior h = (if runtime_isNode h then OnExit else OnThrow)"

definition runtime_defaultClientAccessError :: "host \<Rightarrow> on_client_access_error" where
  "runtime_defaultClientAccessError h = (if runtime_isDevelopment h then AccessWarn else AccessIgnore)"

section \<open>Strings\<close>

text \<open>The double quote and the single quote, as one-character strings.\<close>

abbreviation (input) dq :: string where
  "dq \<equiv> [CHR 0x22]"

abbreviation (input) sq :: string where
  "sq \<equiv> [CHR 0x27]"

text \<open>\<open>Array.prototype.join\<close> on strings.\<close>

fun join :: "string \<Rightarrow> string list \<Rightarrow> string" where
  "join sep [] = []"
| "join sep [x] = x"
| "join sep (x # y # ys) = x @ sep @ join sep (y # ys)"

text \<open>
  Decimal printing of an integer, which is what \<open>String(n)\<close>, \<open>n.toString()\<close> and
  \<open>JSON.stringify(n)\<close> give for the numbers of the model.
\<close>

definition digit_char :: "int \<Rightarrow> char" where
  "digit_char d = ''0123456789'' ! nat d"

function show_digits :: "int \<Rightarrow> string" where
  "show_digits n =
     (if n < 10 then [digit_char n] else show_digits (n div 10) @ [digit_char (n mod 10)])"
  by pat_completeness auto
termination
  by (relation "measure nat") auto

declare show_digits.simps [simp del]

definition show_int :: "int \<Rightarrow> string" where
  "show_int i = (if i < 0 then CHR ''-'' # show_digits (- i) else show_digits i)"

text \<open>\<open>startsWithAny\<close> of \<open>types/guards\<close>; \<open>str.startsWith(prefix)\<close> is \<open>prefix prefix str\<close>.\<close>

definition startsWithAny :: "string \<Rightarrow> string list \<Rightarrow> bool" where
  "startsWithAny str pfxs = list_ex (\<lambda>p. prefix p str) pfxs"

section \<open>Validators, metadata and options\<close>

text \<open>
  One issue of a validation failure, and a failure (\<open>ZodError\<close>) as its list of issues.
  \<open>i_received\<close> is the optional \<open>received\<close> field that \<open>reportErrors\<close> inspects.
\<close>

record issue =
  i_code :: string
  i_message :: string
  i_path :: "string list"
  i_received :: "string option"

type_synonym zod_error = "issue list"

text \<open>
  What a leaf validator's \<open>parse\<close> can throw: a \<open>ZodError\<close>, or anything else. Of the
  other values \<open>getErrorMessage\<close> distinguishes error-like objects (a \<open>message\<close>) from
  plain values.
\<close>

datatype other_thrown = ErrorLike string | PlainValue jsval

datatype thrown = ThrownZod zod_error | ThrownOther other_thrown

fun isZodError :: "thrown \<Rightarrow> bool" where
  "isZodError (ThrownZod _) = True"
| "isZodError (ThrownOther _) = False"

fun getErrorMessage :: "other_thrown \<Rightarrow> string" where
  "getErrorMessage (ErrorLike m) = m"
| "getErrorMessage (PlainValue (JStr s)) = s"
| "getErrorMessage (PlainValue JNull) = ''null''"
| "getErrorMessage (PlainValue JUndefined) = ''undefined''"
| "getErrorMessage (PlainValue (JNum n)) = show_int (sint n)"
| "getErrorMessage (PlainValue (JBool b)) = (if b then ''true'' else ''false'')"
| "getErrorMessage (PlainValue _) = ''Unknown error''"

text \<open>
  The front-end configuration of a validator. \<open>cc_default\<close> and \<open>cc_devDefault\<close> are
  \<open>JUndefined\<close> when left out: the program tests them with \<open>!== undefined\<close> only.
\<close>

record client_config =
  cc_expose :: bool
  cc_transform :: "(jsval \<Rightarrow> jsval) option"
  cc_default :: jsval
  cc_devDefault :: jsval

text \<open>
  Modelled from the spec: the type \<open>SchemaMetadata\<close> (declared in \<open>types/inference\<close>,
  which is not among the sources). The fields are those of section 3 of the specification;
  \<open>core.ts\<close> reads \<open>client\<close>, \<open>autoExposed\<close> and \<open>serverOnly\<close> and copies the rest.
  A default variant is \<open>None\<close> when it was not declared and \<open>Some v\<close> when it was declared
  with the value \<open>v\<close>, which may be \<open>JUndefined\<close>.
\<close>

record schema_metadata =
  md_default :: "jsval option"
  md_devDefault :: "jsval option"
  md_testDefault :: "jsval option"
  md_description :: "string option"
  md_example :: "string option"
  md_client :: "client_config option"
  md_autoExposed :: "bool option"
  md_serverOnly :: "bool option"

definition empty_metadata :: schema_metadata where
  "empty_metadata =
     \<lparr>md_default = None, md_devDefault = None, md_testDefault = None, md_description = None,
      md_example = None, md_client = None, md_autoExposed = None, md_serverOnly = None\<rparr>"

text \<open>The object spread \<open>{...meta}\<close> of a possibly undefined \<open>meta\<close>.\<close>

definition spread_meta :: "schema_metadata option \<Rightarrow> schema_metadata" where
  "spread_meta meta = (case meta of Some m \<Rightarrow> m | None \<Rightarrow> empty_metadata)"

text \<open>
  A leaf validator: its \<open>parse\<close>, which may consult the runtime and either returns a value
  or throws, and the metadata attached to it, if any. A spec entry is a validator or some
  other value.
\<close>

record schema =
  sc_parse :: "host \<Rightarrow> jsval \<Rightarrow> thrown + jsval"
  sc_meta :: "schema_metadata option"

datatype spec_entry = ZodSchema schema | NotSchema jsval

fun isZodSchema :: "spec_entry \<Rightarrow> bool" where
  "isZodSchema (ZodSchema _) = True"
| "isZodSchema (NotSchema _) = False"

text \<open>
  Modelled from the spec: \<open>getMetadata\<close> of \<open>validators.ts\<close> (not among the sources),
  the lookup of section 4.2: the metadata attached to the validator, or absent.
\<close>

definition getMetadata :: "schema \<Rightarrow> schema_metadata option" where
  "getMetadata validator = sc_meta validator"

text \<open>
  What a call of \<open>zenv\<close> can raise: the composite error \<open>ZenvError message zodErrors\<close>
  of \<open>errors.ts\<close>, whose list of failure records is optional, or any other value, which
  only a reporter callback can throw.
\<close>

datatype raised =
    ZenvError string "zod_error list option"
  | ReporterError thrown

text \<open>
  The options of \<open>zenv\<close>; \<open>None\<close> is an option left out. \<open>o_reporter\<close> is the reporter
  callback: called with the failure records and the raw source, it returns (\<open>None\<close>) or
  throws (\<open>Some x\<close>). \<open>o_env\<close> is the \<open>env\<close> option (the raw source).
\<close>

record zenv_options =
  o_onError :: "on_error option"
  o_strict :: "bool option"
  o_clientSafePrefixes :: "string list option"
  o_serverOnlyPrefixes :: "string list option"
  o_onClientAccessError :: "on_client_access_error option"
  o_reporter :: "(zod_error list \<Rightarrow> rawenv option \<Rightarrow> raised option) option"
  o_env :: "rawenv option"

definition default_options :: zenv_options where
  "default_options =
     \<lparr>o_onError = None, o_strict = None, o_clientSafePrefixes = None,
      o_serverOnlyPrefixes = None, o_onClientAccessError = None, o_reporter = None,
      o_env = None\<rparr>"

text \<open>
  The effects of the program beyond its results, in the order they happen.
  \<open>RawRead key\<close> is the read \<open>env[key]\<close> that the loop of \<open>validateSpecs\<close> makes for
  the spec key \<open>key\<close>; \<open>ParseCall key v\<close> is a call of the \<open>parse\<close> of the validator
  of \<open>key\<close> with \<open>v\<close>; then a call of a client transform, console output, and a call
  of the reporter. These are the events, and nothing else is: the lookups of
  \<open>NODE_ENV\<close> that \<open>addEnvAccessors\<close> and the \<open>runtime\<close> getters make, and the
  membership test \<open>propName in rawEnv\<close> of the \<open>get\<close> trap, leave no event.
\<close>

datatype event =
    RawRead string
  | ParseCall string jsval
  | TransformCall string jsval
  | ConsoleWarn string
  | ConsoleError string
  | ReporterCall "zod_error list" "rawenv option"

section \<open>The resolver: \<open>validateSingleSpec\<close> and \<open>validateSpecs\<close>\<close>

type_synonym metadata_map = "string \<rightharpoonup> schema_metadata"

text \<open>
  \<open>finalMeta\<close> of \<open>validateSingleSpec\<close>: the validator's metadata with the exposure
  computed from the prefixes; a server-only prefix forces \<open>client.expose\<close> to false.
\<close>

definition finalMeta :: "string \<Rightarrow> schema \<Rightarrow> zenv_options \<Rightarrow> schema_metadata" where
  "finalMeta key schema options =
     (let meta = getMetadata schema;
          clientSafePrefixes = (case o_clientSafePrefixes options of Some ps \<Rightarrow> ps | None \<Rightarrow> []);
          serverOnlyPrefixes = (case o_serverOnlyPrefixes options of Some ps \<Rightarrow> ps | None \<Rightarrow> []);
          isServerOnly = (length serverOnlyPrefixes > 0 \<and> startsWithAny key serverOnlyPrefixes);
          isAutoExposed = (\<not> isServerOnly \<and> length clientSafePrefixes > 0
                            \<and> startsWithAny key clientSafePrefixes);
          fm = (spread_meta meta)\<lparr>md_autoExposed := Some isAutoExposed,
                                  md_serverOnly := Some isServerOnly\<rparr>
      in case md_client fm of
           Some c \<Rightarrow> if isServerOnly then fm\<lparr>md_client := Some (c\<lparr>cc_expose := False\<rparr>)\<rparr> else fm
         | None \<Rightarrow> fm)"

text \<open>
  \<open>validateSingleSpec\<close> stores the final metadata of the key and then parses the raw
  value; it returns the updated metadata map with what \<open>schema.parse\<close> returned or threw.
\<close>

definition validateSingleSpec ::
  "host \<Rightarrow> string \<Rightarrow> schema \<Rightarrow> jsval \<Rightarrow> metadata_map \<Rightarrow> zenv_options
     \<Rightarrow> metadata_map \<times> (thrown + jsval)" where
  "validateSingleSpec h key schema v metadata options =
     (metadata(key \<mapsto> finalMeta key schema options), sc_parse schema h v)"

text \<open>The state of the loop of \<open>validateSpecs\<close>, with the effects so far.\<close>

record vs_state =
  vs_result :: jsobj
  vs_metadata :: metadata_map
  vs_errors :: "zod_error list"
  vs_trace :: "event list"

definition vs_init :: vs_state where
  "vs_init = \<lparr>vs_result = [], vs_metadata = Map.empty, vs_errors = [], vs_trace = []\<rparr>"

text \<open>
  The \<open>catch\<close> block: a \<open>ZodError\<close> gets the key in front of each issue's path, anything
  else becomes one \<open>custom\<close> issue.
\<close>

definition catch_block :: "string \<Rightarrow> thrown \<Rightarrow> zod_error" where
  "catch_block key error =
     (case error of
        ThrownZod issues \<Rightarrow>
          map (\<lambda>i. i\<lparr>i_path := (if length (i_path i) = 0 then [key] else key # i_path i)\<rparr>) issues
      | ThrownOther e \<Rightarrow>
          [\<lparr>i_code = ''custom'', i_message = getErrorMessage e, i_path = [key],
            i_received = None\<rparr>])"

text \<open>The message of the \<open>TypeError\<close> that reading a key of an undefined source raises (V8's wording).\<close>

definition undefined_read_message :: "string \<Rightarrow> string" where
  "undefined_read_message key = ''Cannot read properties of undefined (reading '' @ sq @ key @ sq @ '')''"

text \<open>
  \<open>shouldSkip\<close> of \<open>validateSpecs\<close>, computed on the client only: the key matches no
  client-safe prefix and its validator does not declare \<open>client.expose === true\<close>.
\<close>

definition shouldSkip :: "string \<Rightarrow> schema \<Rightarrow> zenv_options \<Rightarrow> bool" where
  "shouldSkip key validator options =
     (let clientSafePrefixes = (case o_clientSafePrefixes options of Some ps \<Rightarrow> ps | None \<Rightarrow> []);
          meta = getMetadata validator;
          isAutoExposed = (length clientSafePrefixes > 0 \<and> startsWithAny key clientSafePrefixes);
          isExplicitlyExposed =
            (case meta of
               Some m \<Rightarrow> (case md_client m of Some c \<Rightarrow> cc_expose c | None \<Rightarrow> False)
             | None \<Rightarrow> False)
      in \<not> isAutoExposed \<and> \<not> isExplicitlyExposed)"

text \<open>
  One iteration of the loop, for the entry \<open>(key, validator)\<close>: the \<open>try\<close> block, and
  the \<open>catch\<close> block where the \<open>try\<close> block throws.
\<close>

definition validateSpecs_body ::
  "host \<Rightarrow> rawenv option \<Rightarrow> zenv_options \<Rightarrow> vs_state \<Rightarrow> string \<times> spec_entry \<Rightarrow> vs_state" where
  "validateSpecs_body h env options st entry =
     (let key = fst entry
      in case snd entry of
        NotSchema _ \<Rightarrow>
          st\<lparr>vs_errors := vs_errors st @
                [catch_block key (ThrownOther (ErrorLike
                   (''Invalid validator for '' @ dq @ key @ dq @ '': must be a Zod schema'')))]\<rparr>
      | ZodSchema validator \<Rightarrow>
          if runtime_isClient h \<and> shouldSkip key validator options
          then st\<lparr>vs_metadata :=
                     (vs_metadata st)(key \<mapsto> (spread_meta (getMetadata validator))\<lparr>md_serverOnly := Some True\<rparr>)\<rparr>
          else (case env of
                  None \<Rightarrow>
                    st\<lparr>vs_errors := vs_errors st @
                          [catch_block key (ThrownOther (ErrorLike (undefined_read_message key)))],
                       vs_trace := vs_trace st @ [RawRead key]\<rparr>
                | Some e \<Rightarrow>
                    (let rawValue = plain_get e key;
                         (metadata', parsed) =
                            validateSingleSpec h key validator rawValue (vs_metadata st) options;
                         trace' = vs_trace st @ [RawRead key, ParseCall key rawValue]
                     in case parsed of
                          Inr v \<Rightarrow> st\<lparr>vs_result := obj_assign (vs_result st) key v,
                                      vs_metadata := metadata', vs_trace := trace'\<rparr>
                        | Inl error \<Rightarrow> st\<lparr>vs_metadata := metadata',
                                          vs_errors := vs_errors st @ [catch_block key error],
                                          vs_trace := trace'\<rparr>)))"

text \<open>
  The loop \<open>for (const [key, validator] of Object.entries(specs))\<close>. A spec is given as
  the list of its entries in the order of \<open>Object.entries\<close>, which for a spec object is
  the order in which its keys were declared, except that keys that are array indices come
  first, in ascending order.
\<close>

fun validateSpecs_loop ::
  "host \<Rightarrow> rawenv option \<Rightarrow> zenv_options \<Rightarrow> vs_state \<Rightarrow> (string \<times> spec_entry) list \<Rightarrow> vs_state" where
  "validateSpecs_loop h env options st [] = st"
| "validateSpecs_loop h env options st (entry # rest) =
     validateSpecs_loop h env options (validateSpecs_body h env options st entry) rest"

definition validateSpecs ::
  "host \<Rightarrow> (string \<times> spec_entry) list \<Rightarrow> rawenv option \<Rightarrow> zenv_options \<Rightarrow> vs_state" where
  "validateSpecs h specs env options = validateSpecs_loop h env options vs_init specs"

section \<open>Reporting\<close>

definition report_line :: "issue \<Rightarrow> string" where
  "report_line i = ''    '' @ join ''.'' (i_path i) @ '': '' @ i_message i"

definition is_missing_issue :: "issue \<Rightarrow> bool" where
  "is_missing_issue i = (i_code i = ''invalid_type'' \<and> i_received i = Some ''undefined'')"

definition reportErrors :: "host \<Rightarrow> zod_error list \<Rightarrow> on_error \<Rightarrow> event list" where
  "reportErrors h errors onError =
     (let issues = concat errors;
          missingVars = map report_line (filter is_missing_issue issues);
          invalidVars = map report_line (filter (\<lambda>i. \<not> is_missing_issue i) issues);
          output = join [CHR 0x0A]
            ([''================================'']
             @ (if invalidVars \<noteq> [] then '' Invalid environment variables:'' # invalidVars else [])
             @ (if missingVars \<noteq> [] then '' Missing environment variables:'' # missingVars else [])
             @ [''================================''])
      in ConsoleError output #
         (if onError = OnExit \<and> runtime_isNode h
          then [ConsoleError (CHR 0x0A # '' Exiting with error code 1'')] else []))"

section \<open>The accessors and the protective proxy\<close>

text \<open>\<open>a ?? b\<close>.\<close>

definition nullish :: "jsval \<Rightarrow> jsval \<Rightarrow> jsval" where
  "nullish a b = (if a = JUndefined \<or> a = JNull then b else a)"

text \<open>
  The constant \<open>nodeEnv\<close> of \<open>addEnvAccessors\<close>: the validated \<open>NODE_ENV\<close>, else the
  raw one, else \<open>runtime.nodeEnv\<close>, as a string.
\<close>

definition accessors_nodeEnv :: "host \<Rightarrow> jsobj \<Rightarrow> rawenv option \<Rightarrow> string" where
  "accessors_nodeEnv h env rawEnv =
     (let envNodeEnv = target_get env (PStr ''NODE_ENV'');
          rawEnvNodeEnv = (case rawEnv of Some e \<Rightarrow> plain_get e ''NODE_ENV'' | None \<Rightarrow> JUndefined);
          nodeEnvValue = nullish envNodeEnv (nullish rawEnvNodeEnv (JStr (runtime_nodeEnv h)))
      in case nodeEnvValue of
           JStr s \<Rightarrow> s
         | JNum n \<Rightarrow> show_int (sint n)
         | _ \<Rightarrow> runtime_nodeEnv h)"

text \<open>
  \<open>addEnvAccessors\<close> computes \<open>nodeEnv\<close> once and defines the five booleans, with
  \<open>Object.defineProperties\<close>, as non-enumerable data properties that hold the computed
  values.
\<close>

definition addEnvAccessors :: "host \<Rightarrow> jsobj \<Rightarrow> rawenv option \<Rightarrow> jsobj" where
  "addEnvAccessors h env rawEnv =
     (let nodeEnv = accessors_nodeEnv h env rawEnv;
          isProd = (nodeEnv = ''production'');
          env1 = obj_define env ''isDevelopment'' (JBool (nodeEnv = ''development'')) False None None;
          env2 = obj_define env1 ''isDev'' (JBool (nodeEnv = ''development'')) False None None;
          env3 = obj_define env2 ''isProduction'' (JBool isProd) False None None;
          env4 = obj_define env3 ''isProd'' (JBool isProd) False None None
      in obj_define env4 ''isTest'' (JBool (nodeEnv = ''test'')) False None None)"

text \<open>
  The proxy: its target and what the handler's closures captured when it was created.
  \<open>strict\<close> and \<open>onClientAccessError\<close> get their defaults at creation.
\<close>

record penv =
  p_target :: jsobj
  p_metadata :: metadata_map
  p_strict :: bool
  p_onClientAccessError :: on_client_access_error
  p_rawEnv :: "rawenv option"

definition createProtectiveProxy ::
  "host \<Rightarrow> jsobj \<Rightarrow> metadata_map \<Rightarrow> zenv_options \<Rightarrow> rawenv option \<Rightarrow> penv" where
  "createProtectiveProxy h env metadata options rawEnv =
     \<lparr>p_target = env, p_metadata = metadata,
      p_strict = (case o_strict options of Some b \<Rightarrow> b | None \<Rightarrow> True),
      p_onClientAccessError =
        (case o_onClientAccessError options of
           Some a \<Rightarrow> a | None \<Rightarrow> runtime_defaultClientAccessError h),
      p_rawEnv = rawEnv\<rparr>"

definition inspectables :: "pkey list" where
  "inspectables =
     [PStr ''length'', PStr ''inspect'', PStr ''hasOwnProperty'', PStr ''toJSON'',
      PSymToStringTag, PSymIterator, PStr ''asymmetricMatch'', PStr ''nodeType'',
      PStr ''$$typeof'', PStr ''then'', PStr ''__esModule'', PStr ''__clientSafePrefixes__'']"

definition accessorProps :: "string list" where
  "accessorProps = [''isDevelopment'', ''isDev'', ''isProduction'', ''isProd'', ''isTest'']"

text \<open>\<open>isExposed\<close> of the \<open>get\<close> trap: \<open>!isServerOnly && (meta?.client?.expose ?? meta?.autoExposed)\<close>.\<close>

definition isExposed :: "schema_metadata option \<Rightarrow> bool" where
  "isExposed meta =
     (let isServerOnly = (case meta of
                            Some m \<Rightarrow> (case md_serverOnly m of Some b \<Rightarrow> b | None \<Rightarrow> False)
                          | None \<Rightarrow> False)
      in \<not> isServerOnly \<and>
         (case meta of
            Some m \<Rightarrow> (case md_client m of
                         Some c \<Rightarrow> cc_expose c
                       | None \<Rightarrow> (case md_autoExposed m of Some b \<Rightarrow> b | None \<Rightarrow> False))
          | None \<Rightarrow> False))"

text \<open>
  The \<open>value\<close> of the \<open>get\<close> trap when the key is exposed on the client: the stored value,
  replaced by a client default when the raw source does not have the key.
\<close>

definition client_value :: "host \<Rightarrow> penv \<Rightarrow> pkey \<Rightarrow> jsval" where
  "client_value h env prop =
     (let propName = String_of prop;
          meta = p_metadata env propName;
          v = (if target_in prop (p_target env) then target_get (p_target env) prop else JUndefined);
          wasExplicitlySet = (case p_rawEnv env of Some e \<Rightarrow> plain_in propName e | None \<Rightarrow> False)
      in case (case meta of Some m \<Rightarrow> md_client m | None \<Rightarrow> None) of
           Some c \<Rightarrow>
             if \<not> wasExplicitlySet
             then (if runtime_isDevelopment h \<and> cc_devDefault c \<noteq> JUndefined then cc_devDefault c
                   else if cc_default c \<noteq> JUndefined then cc_default c
                   else v)
             else v
         | None \<Rightarrow> v)"

text \<open>The \<open>get\<close> trap, at the runtime \<open>h\<close> of the read: its effects and its result.\<close>

definition proxy_get :: "host \<Rightarrow> penv \<Rightarrow> pkey \<Rightarrow> event list \<times> (js_error + jsval)" where
  "proxy_get h env prop =
     (let target = p_target env in
      if prop \<in> set inspectables then ([], Inr (target_get target prop))
      else
        (let propName = String_of prop;
             propExists = target_in prop target
         in if propName \<in> set accessorProps then ([], Inr (target_get target prop))
            else if \<not> propExists \<and> p_strict env
            then ([], Inl (ReferenceError (''[zenv] Environment variable not found: '' @ propName)))
            else if runtime_isClient h
            then
              (let meta = p_metadata env propName in
               if \<not> isExposed meta
               then (if p_onClientAccessError env = AccessThrow
                     then ([], Inl (Error (''Cannot access server-only environment variable ''
                                            @ sq @ propName @ sq @ '' on client'')))
                     else if p_onClientAccessError env = AccessWarn \<and> runtime_isDevelopment h
                     then ([ConsoleWarn (''[zenv] Warning: Attempted to access server-only variable ''
                                          @ dq @ propName @ dq @ '' on client'')],
                           Inr JUndefined)
                     else ([], Inr JUndefined))
               else
                 (let v = client_value h env prop in
                  case (case meta of Some m \<Rightarrow> (case md_client m of Some c \<Rightarrow> cc_transform c | None \<Rightarrow> None)
                                   | None \<Rightarrow> None) of
                    Some transform \<Rightarrow>
                      if v \<noteq> JUndefined then ([TransformCall propName v], Inr (transform v))
                      else ([], Inr v)
                  | None \<Rightarrow> ([], Inr v)))
            else ([], Inr (target_get target prop))))"

text \<open>The \<open>set\<close> and \<open>defineProperty\<close> traps: both throw whatever they are given.\<close>

definition proxy_set :: "penv \<Rightarrow> pkey \<Rightarrow> jsval \<Rightarrow> js_error + penv" where
  "proxy_set env prop v = Inl (TypeError (''[zenv] Attempt to mutate environment value: '' @ String_of prop))"

definition proxy_defineProperty :: "penv \<Rightarrow> pkey \<Rightarrow> pdesc \<Rightarrow> js_error + penv" where
  "proxy_defineProperty env prop d =
     Inl (TypeError (''[zenv] Attempt to define property on environment: '' @ String_of prop))"

text \<open>The \<open>deleteProperty\<close> trap: it leaves the target alone and returns true.\<close>

definition proxy_deleteProperty :: "penv \<Rightarrow> pkey \<Rightarrow> bool \<times> penv" where
  "proxy_deleteProperty env prop = (True, env)"

text \<open>The \<open>ownKeys\<close> and \<open>getOwnPropertyDescriptor\<close> traps pass the target's answer through.\<close>

definition proxy_ownKeys :: "penv \<Rightarrow> string list" where
  "proxy_ownKeys env = map fst (p_target env)"

fun proxy_getOwnPropertyDescriptor :: "penv \<Rightarrow> pkey \<Rightarrow> pdesc option" where
  "proxy_getOwnPropertyDescriptor env (PStr k) = map_of (p_target env) k"
| "proxy_getOwnPropertyDescriptor env _ = None"

text \<open>\<open>Object.keys(env)\<close> on the proxy: the own keys whose descriptor is enumerable.\<close>

definition Object_keys :: "penv \<Rightarrow> string list" where
  "Object_keys env =
     filter (\<lambda>k. case proxy_getOwnPropertyDescriptor env (PStr k) of
                   Some d \<Rightarrow> pd_enumerable d | None \<Rightarrow> False)
            (proxy_ownKeys env)"

text \<open>
  The operator \<open>delete env[prop]\<close>. A proxy's \<open>[[Delete]]\<close> (ECMAScript 10.5.10) calls the
  trap and, when the trap answers true, checks the target: a property that is an own,
  non-configurable property of the target cannot be reported as deleted, and the
  operation throws a \<open>TypeError\<close> (V8's wording below). The target is extensible.
\<close>

definition delete_operator :: "penv \<Rightarrow> pkey \<Rightarrow> js_error + (bool \<times> penv)" where
  "delete_operator env prop =
     (let (booleanTrapResult, env') = proxy_deleteProperty env prop
      in if \<not> booleanTrapResult then Inr (False, env')
         else (case proxy_getOwnPropertyDescriptor env' prop of
                 None \<Rightarrow> Inr (True, env')
               | Some targetDesc \<Rightarrow>
                   if \<not> pd_configurable targetDesc
                   then Inl (TypeError (sq @ ''deleteProperty'' @ sq
                          @ '' on proxy: trap returned truish for property '' @ sq @ String_of prop @ sq
                          @ '' which is non-configurable in the proxy target''))
                   else Inr (True, env')))"

section \<open>The entry point \<open>zenv\<close>\<close>

text \<open>A call of \<open>zenv\<close> returns an environment, throws, or ends the process.\<close>

datatype zenv_outcome =
    Returned penv
  | Threw raised
  | Exited nat

text \<open>
  The tail shared by the two returning paths: add the accessors, attach the client-safe
  prefixes when the option was given, wrap in the proxy.
\<close>

definition finish_env ::
  "host \<Rightarrow> jsobj \<Rightarrow> metadata_map \<Rightarrow> zenv_options \<Rightarrow> rawenv option \<Rightarrow> penv" where
  "finish_env h result metadata options env =
     (let envWithAccessors = addEnvAccessors h result env;
          envWithPrefixes =
            (case o_clientSafePrefixes options of
               Some ps \<Rightarrow> obj_define envWithAccessors ''__clientSafePrefixes__''
                            (JArr (map JStr ps)) False (Some False) (Some False)
             | None \<Rightarrow> envWithAccessors)
      in createProtectiveProxy h envWithPrefixes metadata options env)"

text \<open>The destructuring defaults \<open>onError = runtime.defaultErrorBehavior\<close> and \<open>env = runtime.env\<close>.\<close>

definition onError_of :: "host \<Rightarrow> zenv_options \<Rightarrow> on_error" where
  "onError_of h options =
     (case o_onError options of Some e \<Rightarrow> e | None \<Rightarrow> runtime_defaultErrorBehavior h)"

definition env_of :: "host \<Rightarrow> zenv_options \<Rightarrow> rawenv option" where
  "env_of h options = (case o_env options of Some e \<Rightarrow> Some e | None \<Rightarrow> runtime_env h)"

text \<open>
  The report of the failures: the reporter callback when one was given, else
  \<open>reportErrors\<close>. The result is the effects and, when the reporter threw, what it threw.
\<close>

definition report :: "host \<Rightarrow> zenv_options \<Rightarrow> zod_error list \<Rightarrow> event list \<times> raised option" where
  "report h options errors =
     (case o_reporter options of
        Some reporter \<Rightarrow> ([ReporterCall errors (env_of h options)], reporter errors (env_of h options))
      | None \<Rightarrow> (reportErrors h errors (onError_of h options), None))"

text \<open>
  \<open>zenv\<close>. What the reporter throws leaves \<open>zenv\<close> as it is, before the error policy is
  looked at.
\<close>

definition zenv :: "host \<Rightarrow> (string \<times> spec_entry) list \<Rightarrow> zenv_options \<Rightarrow> event list \<times> zenv_outcome" where
  "zenv h specs options =
     (let onError = onError_of h options;
          env = env_of h options;
          st = validateSpecs h specs env options;
          result = vs_result st; metadata = vs_metadata st; errors = vs_errors st
      in if length errors > 0
         then
           (case report h options errors of
              (ev, Some x) \<Rightarrow> (vs_trace st @ ev, Threw x)
            | (ev, None) \<Rightarrow>
                (let reported = vs_trace st @ ev
                 in if onError = OnThrow
                    then (reported, Threw (ZenvError ''Environment validation failed'' (Some errors)))
                    else if onError = OnExit \<and> runtime_isNode h
                    then (reported, Exited 1)
                    else if onError = OnReturn
                    then (reported, Returned (finish_env h result metadata options env))
                    else (reported, Returned (finish_env h result metadata options env))))
         else (vs_trace st, Returned (finish_env h result metadata options env)))"

section \<open>The bootstrap script: \<open>getClientEnvScript\<close>\<close>

text \<open>
  \<open>JSON.stringify\<close> on the values of the model. A string is quoted with the escapes of
  \<open>QuoteJSONString\<close>; a member whose value has no JSON text (undefined, a function) is
  left out of an object and is \<open>null\<close> in an array.
\<close>

definition hex_digit :: "nat \<Rightarrow> char" where
  "hex_digit d = (if d < 10 then char_of (48 + d) else char_of (87 + d))"

definition quote_char :: "char \<Rightarrow> string" where
  "quote_char c =
     (if c = CHR 0x22 then [CHR 0x5C, CHR 0x22]
      else if c = CHR 0x5C then [CHR 0x5C, CHR 0x5C]
      else if c = CHR 0x08 then [CHR 0x5C, CHR ''b'']
      else if c = CHR 0x0C then [CHR 0x5C, CHR ''f'']
      else if c = CHR 0x0A then [CHR 0x5C, CHR ''n'']
      else if c = CHR 0x0D then [CHR 0x5C, CHR ''r'']
      else if c = CHR 0x09 then [CHR 0x5C, CHR ''t'']
      else if (of_char c :: nat) < 32
      then [CHR 0x5C, CHR ''u'', CHR ''0'', CHR ''0'',
            hex_digit (of_char c div 16), hex_digit (of_char c mod 16)]
      else [c])"

definition QuoteJSONString :: "string \<Rightarrow> string" where
  "QuoteJSONString s = dq @ concat (map quote_char s) @ dq"

fun JSON_stringify :: "jsval \<Rightarrow> string option"
  and stringify_elements :: "jsval list \<Rightarrow> string list"
  and stringify_members :: "(string \<times> jsval) list \<Rightarrow> string list" where
  "JSON_stringify JUndefined = None"
| "JSON_stringify JNull = Some ''null''"
| "JSON_stringify (JBool b) = Some (if b then ''true'' else ''false'')"
| "JSON_stringify (JNum n) = Some (show_int (sint n))"
| "JSON_stringify (JStr s) = Some (QuoteJSONString s)"
| "JSON_stringify (JArr vs) = Some (''['' @ join '','' (stringify_elements vs) @ '']'')"
| "JSON_stringify (JObj kvs) = Some (''{'' @ join '','' (stringify_members kvs) @ ''}'')"
| "JSON_stringify (JBuiltin n) = (if n = ''__proto__'' then Some ''{}'' else None)"
| "stringify_elements [] = []"
| "stringify_elements (v # vs) =
     (case JSON_stringify v of Some s \<Rightarrow> s | None \<Rightarrow> ''null'') # stringify_elements vs"
| "stringify_members [] = []"
| "stringify_members (kv # kvs) =
     (case JSON_stringify (snd kv) of
        Some s \<Rightarrow> (QuoteJSONString (fst kv) @ '':'' @ s) # stringify_members kvs
      | None \<Rightarrow> stringify_members kvs)"

text \<open>\<open>JSON.stringify\<close> of a plain object, which always has a JSON text.\<close>

definition JSON_stringify_object :: "rawenv \<Rightarrow> string" where
  "JSON_stringify_object kvs = ''{'' @ join '','' (stringify_members kvs) @ ''}''"

text \<open>
  The regular expression \<open>/<\/script>/gi\<close>: each pattern character with the two
  characters it matches when case is ignored.
\<close>

definition script_close_pattern :: "(char \<times> char) list" where
  "script_close_pattern =
     [(CHR ''<'', CHR ''<''), (CHR ''/'', CHR ''/''), (CHR ''s'', CHR ''S''),
      (CHR ''c'', CHR ''C''), (CHR ''r'', CHR ''R''), (CHR ''i'', CHR ''I''),
      (CHR ''p'', CHR ''P''), (CHR ''t'', CHR ''T''), (CHR ''>'', CHR ''>'')]"

fun regex_match_here :: "(char \<times> char) list \<Rightarrow> string \<Rightarrow> bool" where
  "regex_match_here [] cs = True"
| "regex_match_here (p # ps) [] = False"
| "regex_match_here (p # ps) (c # cs) = ((c = fst p \<or> c = snd p) \<and> regex_match_here ps cs)"

text \<open>\<open>match.replace("/", "\\/")\<close>: the first slash of the match gets a backslash in front.\<close>

fun replace_first_slash :: "string \<Rightarrow> string" where
  "replace_first_slash [] = []"
| "replace_first_slash (c # cs) =
     (if c = CHR ''/'' then CHR 0x5C # CHR ''/'' # cs else c # replace_first_slash cs)"

text \<open>
  \<open>jsonStr.replace(/<\/script>/gi, ...)\<close>: from left to right, every match is replaced
  and the search goes on behind it.
\<close>

fun escape_script_tags :: "string \<Rightarrow> string" where
  "escape_script_tags [] = []"
| "escape_script_tags (c # cs) =
     (if regex_match_here script_close_pattern (c # cs)
      then replace_first_slash (take 9 (c # cs)) @ escape_script_tags (drop 8 cs)
      else c # escape_script_tags cs)"

text \<open>
  \<open>clientEnv[key] = value\<close> on a plain object; as with \<open>obj_assign\<close>, no property
  \<open>__proto__\<close> is created.
\<close>

fun plain_assign :: "rawenv \<Rightarrow> string \<Rightarrow> jsval \<Rightarrow> rawenv" where
  "plain_assign [] k v = (if k = ''__proto__'' then [] else [(k, v)])"
| "plain_assign ((k', v') # rest) k v =
     (if k' = k then (k', v) # rest else (k', v') # plain_assign rest k v)"

text \<open>
  The value found under \<open>__clientSafePrefixes__\<close> as a list of prefixes: undefined and
  null give way to the empty list (\<open>??\<close>), an array of strings is its strings. Any other
  value is outside the declared type \<open>string[]\<close> and is not modelled.
\<close>

fun strings_of :: "jsval list \<Rightarrow> string list option" where
  "strings_of [] = Some []"
| "strings_of (JStr s # vs) = (case strings_of vs of Some ss \<Rightarrow> Some (s # ss) | None \<Rightarrow> None)"
| "strings_of (_ # vs) = None"

fun retained_prefixes :: "jsval \<Rightarrow> js_error + string list" where
  "retained_prefixes JUndefined = Inr []"
| "retained_prefixes JNull = Inr []"
| "retained_prefixes (JArr vs) =
     (case strings_of vs of
        Some ss \<Rightarrow> Inr ss
      | None \<Rightarrow> Inl (OutsideModel ''__clientSafePrefixes__ is not a string array''))"
| "retained_prefixes _ = Inl (OutsideModel ''__clientSafePrefixes__ is not a string array'')"

text \<open>The loop over \<open>Object.keys(env)\<close> that fills \<open>clientEnv\<close>; every value is read through the proxy.\<close>

fun collect_client_env ::
  "host \<Rightarrow> penv \<Rightarrow> string list \<Rightarrow> string list \<Rightarrow> rawenv \<Rightarrow> event list \<times> (js_error + rawenv)" where
  "collect_client_env h env pfxs [] clientEnv = ([], Inr clientEnv)"
| "collect_client_env h env pfxs (key # keys) clientEnv =
     (let isClientSafe = (length pfxs > 0 \<and> list_ex (\<lambda>p. prefix p key) pfxs)
      in if isClientSafe
         then (case proxy_get h env (PStr key) of
                 (ev, Inl e) \<Rightarrow> (ev, Inl e)
               | (ev, Inr v) \<Rightarrow>
                   (let (ev', r) = collect_client_env h env pfxs keys
                                     (if v \<noteq> JUndefined then plain_assign clientEnv key v else clientEnv)
                    in (ev @ ev', r)))
         else collect_client_env h env pfxs keys clientEnv)"

definition getClientEnvScript ::
  "host \<Rightarrow> penv \<Rightarrow> string list option \<Rightarrow> event list \<times> (js_error + string)" where
  "getClientEnvScript h env clientSafePrefixes =
     (if runtime_isClient h
      then (case h_window h of
              Some (Some b) \<Rightarrow>
                ([], Inr (''window.__ZENV_CLIENT__ = '' @ escape_script_tags (JSON_stringify_object b) @ '';''))
            | _ \<Rightarrow> ([], Inr []))
      else
        (let (ev0, found) =
               (case clientSafePrefixes of
                  Some ps \<Rightarrow> ([], Inr ps)
                | None \<Rightarrow>
                    (case proxy_get h env (PStr ''__clientSafePrefixes__'') of
                       (ev, Inl e) \<Rightarrow> (ev, Inl e)
                     | (ev, Inr v) \<Rightarrow> (ev, retained_prefixes v)))
         in case found of
              Inl e \<Rightarrow> (ev0, Inl e)
            | Inr pfxs \<Rightarrow>
                (case collect_client_env h env pfxs (Object_keys env) [] of
                   (ev, Inl e) \<Rightarrow> (ev0 @ ev, Inl e)
                 | (ev, Inr clientEnv) \<Rightarrow>
                     (ev0 @ ev,
                      Inr (''window.__ZENV_CLIENT__ = ''
                           @ escape_script_tags (JSON_stringify_object clientEnv) @ '';'')))))"

section \<open>The validator factory\<close>

text \<open>
  Modelled from the spec: the validator factory of \<open>validators.ts\<close> (\<open>str\<close>, \<open>num\<close>,
  \<open>makeValidator\<close> and the others), which is not among the sources. Section 3 of the
  specification gives the precedence that a validator built by the factory follows when
  it parses: an explicit raw value wins; else, in development (in test), the development
  (test) variant if it was declared, whatever its value; else the base default if it was
  declared; else the value is absent. A raw value, and absence, go to the leaf predicate;
  a default is the resolved value as it stands.
\<close>

definition applicable_default :: "host \<Rightarrow> schema_metadata \<Rightarrow> jsval option" where
  "applicable_default h m =
     (if runtime_isDevelopment h \<and> md_devDefault m \<noteq> None then md_devDefault m
      else if runtime_isTest h \<and> md_testDefault m \<noteq> None then md_testDefault m
      else md_default m)"

definition makeValidator :: "(jsval \<Rightarrow> thrown + jsval) \<Rightarrow> schema_metadata \<Rightarrow> schema" where
  "makeValidator leaf m =
     \<lparr>sc_parse = (\<lambda>h raw.
        if raw \<noteq> JUndefined then leaf raw
        else (case applicable_default h m of
                Some d \<Rightarrow> Inr d
              | None \<Rightarrow> leaf JUndefined)),
      sc_meta = Some m\<rparr>"

text \<open>
  Modelled from the spec: a required string, the leaf of \<open>str()\<close>: a string passes
  unchanged, absence is a missing-variable failure, anything else is invalid.
\<close>

fun required_string :: "jsval \<Rightarrow> thrown + jsval" where
  "required_string (JStr s) = Inr (JStr s)"
| "required_string JUndefined =
     Inl (ThrownZod [\<lparr>i_code = ''invalid_type'', i_message = ''Required'', i_path = [],
                      i_received = Some ''undefined''\<rparr>])"
| "required_string _ =
     Inl (ThrownZod [\<lparr>i_code = ''invalid_type'', i_message = ''Expected string'', i_path = [],
                      i_received = None\<rparr>])"

definition str :: "schema_metadata \<Rightarrow> schema" where
  "str m = makeValidator required_string m"

section \<open>Example inputs\<close>

text \<open>A backend (no window) and a front-end (a window, nothing injected), both in production mode.\<close>

definition backend_host :: host where
  "backend_host = \<lparr>h_window = None, h_process = Some (Some [])\<rparr>"

definition frontend_host :: host where
  "frontend_host = \<lparr>h_window = Some None, h_process = Some (Some [])\<rparr>"





text \<open>
  The effective exposure of a key in the words of the specification (section 4.3, step 2),
  to compare with \<open>shouldSkip\<close>:
  \<open>serverOnly = matches(key, serverOnlyPrefixes)\<close>,
  \<open>autoExposed = !serverOnly && matches(key, clientSafePrefixes)\<close>,
  effective exposure \<open>= !serverOnly && (autoExposed || clientConfig.expose === true)\<close>.
\<close>

definition effective_exposure :: "string \<Rightarrow> schema \<Rightarrow> zenv_options \<Rightarrow> bool" where
  "effective_exposure key validator options =
     (let serverOnly = startsWithAny key (case o_serverOnlyPrefixes options of Some ps \<Rightarrow> ps | None \<Rightarrow> []);
          autoExposed = (\<not> serverOnly \<and>
             startsWithAny key (case o_clientSafePrefixes options of Some ps \<Rightarrow> ps | None \<Rightarrow> []));
          expose = (case getMetadata validator of
                      Some m \<Rightarrow> (case md_client m of Some c \<Rightarrow> cc_expose c | None \<Rightarrow> False)
                    | None \<Rightarrow> False)
      in \<not> serverOnly \<and> (autoExposed \<or> expose))"

text \<open>
  Scenario 4 of the specification: the spec \<open>{SECRET: required-string}\<close>, no prefixes,
  \<open>onClientAccessError = "ignore"\<close>, every other option left out.
\<close>

definition secret_spec :: "(string \<times> spec_entry) list" where
  "secret_spec = [(''SECRET'', ZodSchema (str empty_metadata))]"

definition secret_options :: zenv_options where
  "secret_options = default_options\<lparr>o_onClientAccessError := Some AccessIgnore\<rparr>"

text \<open>
  A required string \<open>SERVER_X\<close> that declares \<open>client: {expose: true}\<close>, resolved with the
  server-only prefix \<open>SERVER_\<close>.
\<close>

definition exposed_client :: client_config where
  "exposed_client =
     \<lparr>cc_expose = True, cc_transform = None, cc_default = JUndefined, cc_devDefault = JUndefined\<rparr>"

definition server_x_spec :: "(string \<times> spec_entry) list" where
  "server_x_spec =
     [(''SERVER_X'', ZodSchema (str (empty_metadata\<lparr>md_client := Some exposed_client\<rparr>)))]"

definition server_only_options :: zenv_options where
  "server_only_options = default_options\<lparr>o_serverOnlyPrefixes := Some [''SERVER_'']\<rparr>"

text \<open>
  Scenario 6 of the specification: the resolved values \<open>{PUBLIC_X: "v", SECRET: "s"}\<close>,
  a spec and options that resolve to them with the client-safe prefix \<open>PUBLIC_\<close>, and
  the statement \<open>window.__ZENV_CLIENT__ = {"PUBLIC_X":"v"};\<close>.
\<close>

definition public_secret_values :: jsobj where
  "public_secret_values = obj_assign (obj_assign [] ''PUBLIC_X'' (JStr ''v'')) ''SECRET'' (JStr ''s'')"

definition bootstrap_spec :: "(string \<times> spec_entry) list" where
  "bootstrap_spec = [(''PUBLIC_X'', ZodSchema (str empty_metadata)), (''SECRET'', ZodSchema (str empty_metadata))]"

definition bootstrap_source :: rawenv where
  "bootstrap_source = [(''PUBLIC_X'', JStr ''v''), (''SECRET'', JStr ''s'')]"

definition bootstrap_options :: zenv_options where
  "bootstrap_options = default_options\<lparr>o_clientSafePrefixes := Some [''PUBLIC_''], o_env := Some bootstrap_source\<rparr>"

definition expected_script :: string where
  "expected_script = ''window.__ZENV_CLIENT__ = {'' @ dq @ ''PUBLIC_X'' @ dq @ '':'' @ dq @ ''v'' @ dq @ ''};''"

text \<open>
  An environment on which to read \<open>K\<close> on the front-end: \<open>K\<close> is stored with the value
  \<open>v\<close>, is exposed, and has a client transform that wraps its argument in an array.
\<close>

definition upper_client :: client_config where
  "upper_client =
     \<lparr>cc_expose = True, cc_transform = Some (\<lambda>v. JArr [v]), cc_default = JUndefined,
      cc_devDefault = JUndefined\<rparr>"

definition transform_env :: "jsval \<Rightarrow> penv" where
  "transform_env v =
     \<lparr>p_target = obj_assign [] ''K'' v,
      p_metadata = [''K'' \<mapsto> empty_metadata\<lparr>md_client := Some upper_client\<rparr>],
      p_strict = True, p_onClientAccessError = AccessIgnore, p_rawEnv = Some []\<rparr>"








section \<open>The loop of \<open>validateSpecs\<close>, key by key\<close>



lemma body_metadata:
  "vs_metadata (validateSpecs_body h env options st entry) =
   vs_metadata st ++ vs_metadata (validateSpecs_body h env options vs_init entry)"
  by (simp add: validateSpecs_body_def vs_init_def validateSingleSpec_def Let_def
           split: spec_entry.splits option.splits sum.splits)

lemma obj_assign_keys:
  "fst ` set (obj_assign obj k v) \<subseteq> insert k (fst ` set obj)"
proof (induction obj)
  case Nil
  then show ?case by simp
next
  case (Cons p obj)
  obtain k' d where p: "p = (k', d)" by (cases p)
  show ?case
  proof (cases "k' = k")
    case True
    then show ?thesis by (simp add: p)
  next
    case False
    then show ?thesis using Cons.IH by (auto simp add: p)
  qed
qed


lemma body_result_keys:
  "fst ` set (vs_result (validateSpecs_body h env options st entry))
     \<subseteq> insert (fst entry) (fst ` set (vs_result st))"
  using obj_assign_keys [of "vs_result st" "fst entry"]
  by (auto simp add: validateSpecs_body_def vs_init_def validateSingleSpec_def Let_def
           split: spec_entry.splits option.splits sum.splits)




lemma loop_result_keys:
  "fst ` set (vs_result (validateSpecs_loop h env options st specs))
     \<subseteq> fst ` set (vs_result st) \<union> fst ` set specs"
proof (induction specs arbitrary: st)
  case Nil
  then show ?case by simp
next
  case (Cons entry rest)
  let ?st' = "validateSpecs_body h env options st entry"
  have a: "fst ` set (vs_result (validateSpecs_loop h env options ?st' rest))
        \<subseteq> fst ` set (vs_result ?st') \<union> fst ` set rest"
    by (rule Cons.IH)
  have b: "fst ` set (vs_result ?st') \<subseteq> insert (fst entry) (fst ` set (vs_result st))"
    by (rule body_result_keys)
  have "fst ` set (vs_result (validateSpecs_loop h env options ?st' rest))
        \<subseteq> insert (fst entry) (fst ` set (vs_result st)) \<union> fst ` set rest"
    using a b by blast
  then show ?case by simp
qed


lemma loop_metadata:
  "vs_metadata (validateSpecs_loop h env options st specs) k \<noteq> None \<longleftrightarrow>
   vs_metadata st k \<noteq> None
   \<or> (\<exists>entry \<in> set specs. vs_metadata (validateSpecs_body h env options vs_init entry) k \<noteq> None)"
proof (induction specs arbitrary: st)
  case Nil
  then show ?case by simp
next
  case (Cons entry rest)
  let ?st' = "validateSpecs_body h env options st entry"
  have "vs_metadata ?st' k \<noteq> None \<longleftrightarrow>
        vs_metadata st k \<noteq> None \<or> vs_metadata (validateSpecs_body h env options vs_init entry) k \<noteq> None"
    by (simp add: body_metadata [of h env options st entry] map_add_def split: option.splits)
  then show ?case
    using Cons.IH [of ?st'] by auto
qed

lemma body_metadata_validator:
  "vs_metadata (validateSpecs_body h (Some e) options vs_init (k, ZodSchema v)) k \<noteq> None"
  by (simp add: validateSpecs_body_def vs_init_def validateSingleSpec_def Let_def split: sum.splits)

section \<open>Metadata entries\<close>

text \<open>
  Claim C7, as the specification states it: every spec key has a metadata entry after
  resolution, whatever the outcome, also when the spec entry is not a recognized
  validator. The code does otherwise: an entry that is not a validator throws before any
  metadata is stored. Here the spec key \<open>PORT\<close> holds a string instead of a validator,
  and after resolution the metadata map has no entry for \<open>PORT\<close>.
\<close>

theorem metadata_entry_counterexample:
  "''PORT'' \<in> fst ` set [(''PORT'', NotSchema (JStr ''not a schema''))]
   \<and> vs_metadata (validateSpecs backend_host [(''PORT'', NotSchema (JStr ''not a schema''))]
                     (Some [(''PORT'', JStr ''3000'')]) default_options) ''PORT'' = None"
  by (simp add: validateSpecs_def validateSpecs_body_def vs_init_def)

text \<open>
  Claim C7, amended: for every spec key whose entry is a recognized validator, the
  metadata map has an entry for that key once resolution against a key/value source
  completes, whatever the outcome for the key: validation succeeded, the predicate
  rejected the value, or validation was skipped on the front-end.
\<close>

theorem metadata_entry_for_validator_keys:
  "(k, ZodSchema v) \<in> set specs \<Longrightarrow>
   vs_metadata (validateSpecs h specs (Some e) options) k \<noteq> None"
  unfolding validateSpecs_def loop_metadata
  using body_metadata_validator [of h e options k v] by blast

theorem metadata_entry_for_validator_keys_witness:
  "(''PORT'', ZodSchema (str empty_metadata)) \<in> set [(''PORT'', ZodSchema (str empty_metadata))]
   \<and> vs_metadata (validateSpecs frontend_host [(''PORT'', ZodSchema (str empty_metadata))]
                     (Some []) default_options) ''PORT'' \<noteq> None"
  using metadata_entry_for_validator_keys
          [of "''PORT''" "str empty_metadata" "[(''PORT'', ZodSchema (str empty_metadata))]"
              frontend_host "[]" default_options]
  by simp

section \<open>Failures are collected, never short-circuited\<close>









section \<open>Hidden keys on the front-end\<close>

lemma front_end_skip:
  "runtime_isClient h \<Longrightarrow> shouldSkip k v options \<Longrightarrow>
   validateSpecs_body h env options st (k, ZodSchema v) =
   st\<lparr>vs_metadata := (vs_metadata st)(k \<mapsto> (spread_meta (getMetadata v))\<lparr>md_serverOnly := Some True\<rparr>)\<rparr>"
  by (simp add: validateSpecs_body_def)

text \<open>
  Where \<open>shouldSkip\<close> and the effective exposure of the specification part: the code
  does not skip a key that is not effectively exposed exactly when the key matches a
  server-only prefix and either matches a client-safe prefix or declares
  \<open>client.expose\<close>.
\<close>

lemma skip_gap:
  "(\<not> effective_exposure k v options \<and> \<not> shouldSkip k v options) \<longleftrightarrow>
   (startsWithAny k (case o_serverOnlyPrefixes options of Some ps \<Rightarrow> ps | None \<Rightarrow> [])
    \<and> (startsWithAny k (case o_clientSafePrefixes options of Some ps \<Rightarrow> ps | None \<Rightarrow> [])
         \<or> (case getMetadata v of
               Some m \<Rightarrow> (case md_client m of Some c \<Rightarrow> cc_expose c | None \<Rightarrow> False)
             | None \<Rightarrow> False)))"
  by (auto simp add: effective_exposure_def shouldSkip_def Let_def startsWithAny_def
           split: option.splits)

text \<open>
  Claim C2 (scenario 4 of the specification): on the front-end, resolving
  \<open>{SECRET: required-string}\<close> with no prefixes and \<open>onClientAccessError = "ignore"\<close>
  records no failure, never reads the raw value and never calls the validator, and a
  later read of \<open>SECRET\<close> returns undefined instead of raising. The code, at this input,
  on any front-end host \<open>h\<close>, with any source \<open>src\<close> and at any host \<open>h'\<close> of the read:
  resolution leaves no event (the loop reads no raw value, \<open>parse\<close> is not called,
  nothing is reported) and records no failure, but the read of \<open>SECRET\<close> raises the
  not-found
  \<open>ReferenceError\<close>, because the skipped key is not in the wrapped object and \<open>strict\<close>
  is on by default; the access policy is never consulted.
\<close>

theorem front_end_secret_read:
  assumes "runtime_isClient h"
  shows "fst (zenv h secret_spec (secret_options\<lparr>o_env := src\<rparr>)) = []
     \<and> vs_errors (validateSpecs h secret_spec (env_of h (secret_options\<lparr>o_env := src\<rparr>))
                    (secret_options\<lparr>o_env := src\<rparr>)) = []
     \<and> (case snd (zenv h secret_spec (secret_options\<lparr>o_env := src\<rparr>)) of
          Returned env \<Rightarrow>
            proxy_get h' env (PStr ''SECRET'') =
              ([], Inl (ReferenceError ''[zenv] Environment variable not found: SECRET''))
        | _ \<Rightarrow> False)"
proof -
  let ?opts = "secret_options\<lparr>o_env := src\<rparr>"
  have skip: "shouldSkip ''SECRET'' (str empty_metadata) ?opts"
    by (simp add: shouldSkip_def secret_options_def default_options_def str_def makeValidator_def
          getMetadata_def empty_metadata_def)
  have st: "validateSpecs h secret_spec (env_of h ?opts) ?opts =
        vs_init\<lparr>vs_metadata := [''SECRET'' \<mapsto> (spread_meta (getMetadata (str empty_metadata)))\<lparr>md_serverOnly := Some True\<rparr>]\<rparr>"
    by (simp add: validateSpecs_def secret_spec_def front_end_skip [OF assms skip] vs_init_def)
  show ?thesis
    unfolding zenv_def Let_def st
    by (simp add: vs_init_def Let_def finish_env_def secret_options_def default_options_def
          createProtectiveProxy_def addEnvAccessors_def proxy_get_def inspectables_def accessorProps_def
          object_prototype_keys_def)
qed

theorem front_end_secret_read_witness:
  "runtime_isClient frontend_host
   \<and> fst (zenv frontend_host secret_spec (secret_options\<lparr>o_env := None\<rparr>)) = []
   \<and> (case snd (zenv frontend_host secret_spec (secret_options\<lparr>o_env := None\<rparr>)) of
        Returned env \<Rightarrow>
          proxy_get frontend_host env (PStr ''SECRET'') =
            ([], Inl (ReferenceError ''[zenv] Environment variable not found: SECRET''))
      | _ \<Rightarrow> False)"
proof -
  have c: "runtime_isClient frontend_host"
    by (simp add: runtime_isClient_def frontend_host_def)
  from front_end_secret_read [OF c, of None frontend_host] c show ?thesis by simp
qed

text \<open>
  Claim C3: on the front-end every key whose effective exposure is false is skipped, in
  particular a key under a server-only prefix that declares \<open>expose: true\<close>. The code, on
  the front-end, for the required string \<open>SERVER_X\<close> with \<open>client: {expose: true}\<close>, the
  server-only prefix \<open>SERVER_\<close> and an empty source: the effective exposure is false, yet
  the raw value is read, the validator is called with it, and a missing-variable failure
  is recorded.
\<close>

theorem server_only_key_validated_on_front_end:
  "runtime_isClient frontend_host
   \<and> effective_exposure ''SERVER_X'' (str (empty_metadata\<lparr>md_client := Some exposed_client\<rparr>)) server_only_options = False
   \<and> vs_trace (validateSpecs frontend_host server_x_spec (Some []) server_only_options) =
        [RawRead ''SERVER_X'', ParseCall ''SERVER_X'' JUndefined]
   \<and> vs_errors (validateSpecs frontend_host server_x_spec (Some []) server_only_options) =
        [[\<lparr>i_code = ''invalid_type'', i_message = ''Required'', i_path = [''SERVER_X''],
           i_received = Some ''undefined''\<rparr>]]"
  by (simp add: effective_exposure_def server_x_spec_def server_only_options_def default_options_def
        frontend_host_def runtime_isClient_def startsWithAny_def validateSpecs_def
        validateSpecs_body_def shouldSkip_def str_def makeValidator_def getMetadata_def
        exposed_client_def empty_metadata_def vs_init_def validateSingleSpec_def Let_def
        plain_get_def object_prototype_keys_def applicable_default_def catch_block_def)

section \<open>The environment object that \<open>zenv\<close> returns\<close>

lemma map_of_obj_define_other:
  "k' \<noteq> k \<Longrightarrow> map_of (obj_define obj k v e w c) k' = map_of obj k'"
  by (induction obj) auto

lemma map_of_obj_define_same:
  "map_of (obj_define obj k v e w c) k =
   Some \<lparr>pd_value = v, pd_enumerable = e,
         pd_writable = (case w of Some b \<Rightarrow> b
                        | None \<Rightarrow> (case map_of obj k of Some d \<Rightarrow> pd_writable d | None \<Rightarrow> False)),
         pd_configurable = (case c of Some b \<Rightarrow> b
                        | None \<Rightarrow> (case map_of obj k of Some d \<Rightarrow> pd_configurable d | None \<Rightarrow> False))\<rparr>"
  by (induction obj) (auto split: option.splits)

lemma zenv_returned:
  "snd (zenv h specs options) = Returned env \<Longrightarrow>
   env = finish_env h (vs_result (validateSpecs h specs (env_of h options) options))
                      (vs_metadata (validateSpecs h specs (env_of h options) options))
                      options (env_of h options)"
  by (simp add: zenv_def Let_def split: if_splits prod.splits option.splits)

lemma result_keys:
  "fst ` set (vs_result (validateSpecs h specs env options)) \<subseteq> fst ` set specs"
  using loop_result_keys [of h env options vs_init specs]
  by (simp add: validateSpecs_def vs_init_def)

lemma finish_env_other_keys:
  "a \<noteq> ''__clientSafePrefixes__'' \<Longrightarrow>
   map_of (p_target (finish_env h obj metadata options rawEnv)) a =
   map_of (addEnvAccessors h obj rawEnv) a"
  by (simp add: finish_env_def createProtectiveProxy_def Let_def map_of_obj_define_other
        split: option.splits)

section \<open>The five derived booleans\<close>









section \<open>Writing, redefining and deleting\<close>

text \<open>
  The \<open>set\<close> and \<open>defineProperty\<close> traps throw for every property, and the message
  contains the property's name.
\<close>

lemma mutation_always_rejected:
  "(\<exists>msg. proxy_set env p v = Inl (TypeError msg) \<and> sublist (String_of p) msg)
   \<and> (\<exists>msg. proxy_defineProperty env p d = Inl (TypeError msg) \<and> sublist (String_of p) msg)"
proof -
  have s: "\<And>pre. sublist (String_of p) (pre @ String_of p)"
    using sublist_appendI [of "String_of p" _ "[]"] by simp
  have a: "\<exists>msg. proxy_set env p v = Inl (TypeError msg) \<and> sublist (String_of p) msg"
    unfolding proxy_set_def by (rule exI, rule conjI, rule refl, rule s)
  have b: "\<exists>msg. proxy_defineProperty env p d = Inl (TypeError msg) \<and> sublist (String_of p) msg"
    unfolding proxy_defineProperty_def by (rule exI, rule conjI, rule refl, rule s)
  from a b show ?thesis by (rule conjI)
qed

text \<open>
  Deleting a property that the target does not own, or owns as a configurable property
  (every resolved value is one), reports success and changes nothing.
\<close>

lemma delete_of_configurable_or_absent:
  "(case proxy_getOwnPropertyDescriptor env p of Some d \<Rightarrow> pd_configurable d | None \<Rightarrow> True) \<Longrightarrow>
   delete_operator env p = Inr (True, env)"
  by (auto simp add: delete_operator_def proxy_deleteProperty_def split: option.splits)

lemma accessor_descriptor:
  "map_of obj a = None \<Longrightarrow> a \<in> set accessorProps \<Longrightarrow>
   \<exists>v. map_of (addEnvAccessors h obj rawEnv) a =
        Some \<lparr>pd_value = v, pd_enumerable = False, pd_writable = False, pd_configurable = False\<rparr>"
  by (auto simp add: addEnvAccessors_def Let_def accessorProps_def map_of_obj_define_other
        map_of_obj_define_same)

text \<open>
  Claim C5: for every property name, assigning and redefining throw an error that names
  the property (lemma \<open>mutation_always_rejected\<close>), and deleting never throws, reports
  success and removes nothing. The code misses the last part for the properties it
  defines itself: \<open>addEnvAccessors\<close> defines the five booleans without
  \<open>configurable\<close>, which makes them non-configurable, and the \<open>deleteProperty\<close> trap
  answers true for them; the proxy's \<open>[[Delete]]\<close> refuses that answer. For every
  environment that \<open>zenv\<close> returns and every one of the five names that is not itself
  a spec key, \<open>delete env[name]\<close> throws a \<open>TypeError\<close>.
\<close>

theorem delete_accessor_raises:
  assumes "snd (zenv h specs options) = Returned env"
    and "a \<in> set accessorProps" and "a \<notin> fst ` set specs"
  shows "delete_operator env (PStr a) =
     Inl (TypeError (sq @ ''deleteProperty'' @ sq @ '' on proxy: trap returned truish for property ''
                     @ sq @ a @ sq @ '' which is non-configurable in the proxy target''))"
proof -
  let ?st = "validateSpecs h specs (env_of h options) options"
  have env: "env = finish_env h (vs_result ?st) (vs_metadata ?st) options (env_of h options)"
    by (rule zenv_returned [OF assms(1)])
  have "a \<notin> fst ` set (vs_result ?st)"
    using result_keys [of h specs "env_of h options" options] assms(3) by blast
  then have none: "map_of (vs_result ?st) a = None"
    by (simp add: map_of_eq_None_iff)
  have ne: "a \<noteq> ''__clientSafePrefixes__''"
    using assms(2) by (auto simp add: accessorProps_def)
  from accessor_descriptor [OF none assms(2), of h "env_of h options"]
  obtain v where "map_of (addEnvAccessors h (vs_result ?st) (env_of h options)) a =
        Some \<lparr>pd_value = v, pd_enumerable = False, pd_writable = False, pd_configurable = False\<rparr>"
    by blast
  then have "map_of (p_target env) a =
        Some \<lparr>pd_value = v, pd_enumerable = False, pd_writable = False, pd_configurable = False\<rparr>"
    by (simp add: env finish_env_other_keys [OF ne])
  then show ?thesis
    by (simp add: delete_operator_def proxy_deleteProperty_def)
qed

theorem delete_accessor_raises_witness:
  "snd (zenv backend_host [] default_options) =
     Returned (finish_env backend_host [] Map.empty default_options (Some []))
   \<and> ''isDevelopment'' \<in> set accessorProps \<and> ''isDevelopment'' \<notin> fst ` set ([] :: (string \<times> spec_entry) list)
   \<and> delete_operator (finish_env backend_host [] Map.empty default_options (Some [])) (PStr ''isDevelopment'') =
     Inl (TypeError (sq @ ''deleteProperty'' @ sq @ '' on proxy: trap returned truish for property ''
                     @ sq @ ''isDevelopment'' @ sq @ '' which is non-configurable in the proxy target''))"
proof -
  have a: "snd (zenv backend_host [] default_options) =
     Returned (finish_env backend_host [] Map.empty default_options (Some []))"
    by (simp add: zenv_def Let_def validateSpecs_def vs_init_def env_of_def runtime_env_def
          backend_host_def default_options_def)
  have b: "''isDevelopment'' \<in> set accessorProps" by (simp add: accessorProps_def)
  have c: "''isDevelopment'' \<notin> fst ` set ([] :: (string \<times> spec_entry) list)" by simp
  from delete_accessor_raises [OF a b c] a b show ?thesis by simp
qed

section \<open>The bootstrap script\<close>

text \<open>
  Escaping: after \<open>escape_script_tags\<close>, followed by the closing semicolon, no position
  of the text matches \<open>/<\/script>/i\<close>.
\<close>

lemma match_through_escape:
  "\<forall>p \<in> set ps. fst p \<noteq> CHR ''<'' \<and> snd p \<noteq> CHR ''<'' \<and> fst p \<noteq> CHR '';'' \<and> snd p \<noteq> CHR '';'' \<Longrightarrow>
   regex_match_here ps (escape_script_tags xs @ '';'') \<Longrightarrow> regex_match_here ps xs"
proof (induction ps arbitrary: xs)
  case Nil
  then show ?case by simp
next
  case (Cons p ps)
  have p: "fst p \<noteq> CHR ''<''" "snd p \<noteq> CHR ''<''" "fst p \<noteq> CHR '';''" "snd p \<noteq> CHR '';''"
    and ps: "\<forall>p \<in> set ps. fst p \<noteq> CHR ''<'' \<and> snd p \<noteq> CHR ''<'' \<and> fst p \<noteq> CHR '';'' \<and> snd p \<noteq> CHR '';''"
    using Cons.prems(1) by simp_all
  show ?case
  proof (cases xs)
    case Nil
    with Cons.prems(2) p show ?thesis by auto
  next
    case (Cons x xs')
    show ?thesis
    proof (cases "regex_match_here script_close_pattern (x # xs')")
      case True
      then have x: "x = CHR ''<''" by (simp add: script_close_pattern_def)
      have "escape_script_tags (x # xs') @ '';'' =
            x # (tl (replace_first_slash (take 9 (x # xs'))) @ escape_script_tags (drop 8 xs') @ '';'')"
        using True x by simp
      with Cons.prems(2) Cons have "x = fst p \<or> x = snd p" by simp
      with x p show ?thesis by simp
    next
      case False
      with Cons.prems(2) Cons have a: "x = fst p \<or> x = snd p"
        and b: "regex_match_here ps (escape_script_tags xs' @ '';'')"
        by simp_all
      have "regex_match_here ps xs'"
        by (rule Cons.IH [OF ps b])
      with a Cons show ?thesis by simp
    qed
  qed
qed

lemma match_needs_lt:
  "regex_match_here script_close_pattern ys \<Longrightarrow> \<exists>zs. ys = CHR ''<'' # CHR ''/'' # zs"
proof -
  assume m: "regex_match_here script_close_pattern ys"
  then obtain y ys1 where ys: "ys = y # ys1"
    by (cases ys) (simp_all add: script_close_pattern_def)
  with m have y: "y = CHR ''<''" and m1: "regex_match_here (tl script_close_pattern) ys1"
    by (simp_all add: script_close_pattern_def)
  then obtain y1 ys2 where ys1: "ys1 = y1 # ys2"
    by (cases ys1) (simp_all add: script_close_pattern_def)
  with m1 have "y1 = CHR ''/''" by (simp add: script_close_pattern_def)
  with ys y ys1 show ?thesis by simp
qed

lemma not_in_matched:
  "regex_match_here ps xs \<Longrightarrow> \<forall>p \<in> set ps. fst p \<noteq> a \<and> snd p \<noteq> a \<Longrightarrow>
   a \<notin> set (take (length ps) xs)"
proof (induction ps xs rule: regex_match_here.induct)
  case (1 cs)
  then show ?case by simp
next
  case (2 p ps)
  then show ?case by simp
next
  case (3 p ps c cs)
  then show ?case by auto
qed

lemma no_match_after_escape:
  "suffix ys (escape_script_tags xs @ '';'') \<Longrightarrow> \<not> regex_match_here script_close_pattern ys"
proof (induction xs arbitrary: ys rule: escape_script_tags.induct)
  case 1
  then have "ys = '';'' \<or> ys = []"
    by (auto simp add: suffix_Cons)
  then show ?case by (auto simp add: script_close_pattern_def)
next
  case (2 c cs)
  show ?case
  proof (cases "regex_match_here script_close_pattern (c # cs)")
    case True
    from match_needs_lt [OF True] obtain zs where zs: "c = CHR ''<''" "cs = CHR ''/'' # zs"
      by auto
    from True zs have mz: "regex_match_here (drop 2 script_close_pattern) zs"
      by (simp add: script_close_pattern_def)
    have l: "length (drop 2 script_close_pattern) = 7"
      by (simp add: script_close_pattern_def)
    have "\<forall>p \<in> set (drop 2 script_close_pattern). fst p \<noteq> CHR ''<'' \<and> snd p \<noteq> CHR ''<''"
      by (simp add: script_close_pattern_def)
    from not_in_matched [OF mz this] have nolt: "CHR ''<'' \<notin> set (take 7 zs)"
      unfolding l .
    let ?R = "escape_script_tags (drop 8 cs) @ '';''"
    have E: "escape_script_tags (c # cs) @ '';'' =
             (CHR ''<'' # CHR 0x5C # CHR ''/'' # take 7 zs) @ ?R"
      using True zs by simp
    from "2.prems" E have
      "suffix ys ?R \<or> (\<exists>ys'. ys = ys' @ ?R \<and> suffix ys' (CHR ''<'' # CHR 0x5C # CHR ''/'' # take 7 zs))"
      by (simp only: suffix_append)
    then show ?thesis
    proof
      assume "suffix ys ?R"
      then show ?thesis using "2.IH"(1) [OF True] by simp
    next
      assume "\<exists>ys'. ys = ys' @ ?R \<and> suffix ys' (CHR ''<'' # CHR 0x5C # CHR ''/'' # take 7 zs)"
      then obtain ys' where y1: "ys = ys' @ ?R"
        and y2: "suffix ys' (CHR ''<'' # CHR 0x5C # CHR ''/'' # take 7 zs)" by blast
      from y2 have "ys' = CHR ''<'' # CHR 0x5C # CHR ''/'' # take 7 zs
                    \<or> suffix ys' (CHR 0x5C # CHR ''/'' # take 7 zs)"
        by (simp add: suffix_Cons)
      then show ?thesis
      proof
        assume "ys' = CHR ''<'' # CHR 0x5C # CHR ''/'' # take 7 zs"
        with y1 show ?thesis using match_needs_lt [of ys] by auto
      next
        assume s: "suffix ys' (CHR 0x5C # CHR ''/'' # take 7 zs)"
        show ?thesis
        proof (cases ys')
          case Nil
          with y1 show ?thesis using "2.IH"(1) [OF True, of ?R] by simp
        next
          case (Cons y ys'')
          from s have "set ys' \<subseteq> set (CHR 0x5C # CHR ''/'' # take 7 zs)"
            by (rule set_mono_suffix)
          with Cons nolt have "y \<noteq> CHR ''<''" by auto
          with y1 Cons show ?thesis using match_needs_lt [of ys] by auto
        qed
      qed
    qed
  next
    case False
    from "2.prems" False have "ys = c # escape_script_tags cs @ '';'' \<or> suffix ys (escape_script_tags cs @ '';'')"
      by (simp add: suffix_Cons)
    then show ?thesis
    proof
      assume ys: "ys = c # escape_script_tags cs @ '';''"
      show ?thesis
      proof
        assume m: "regex_match_here script_close_pattern ys"
        with ys have c: "c = CHR ''<''"
          and m1: "regex_match_here (tl script_close_pattern) (escape_script_tags cs @ '';'')"
          by (simp_all add: script_close_pattern_def)
        have "regex_match_here (tl script_close_pattern) cs"
          by (rule match_through_escape [OF _ m1]) (simp add: script_close_pattern_def)
        with c have "regex_match_here script_close_pattern (c # cs)"
          by (simp add: script_close_pattern_def)
        with False show False by simp
      qed
    next
      assume "suffix ys (escape_script_tags cs @ '';'')"
      then show ?thesis using "2.IH"(2) [OF False] by simp
    qed
  qed
qed

lemma no_match_in_script:
  "suffix ys (''window.__ZENV_CLIENT__ = '' @ escape_script_tags j @ '';'') \<Longrightarrow>
   \<not> regex_match_here script_close_pattern ys"
proof -
  assume "suffix ys (''window.__ZENV_CLIENT__ = '' @ escape_script_tags j @ '';'')"
  then have "suffix ys (escape_script_tags j @ '';'')
     \<or> (\<exists>ys'. ys = ys' @ (escape_script_tags j @ '';'') \<and> suffix ys' ''window.__ZENV_CLIENT__ = '')"
    by (simp only: suffix_append)
  then show ?thesis
  proof
    assume "suffix ys (escape_script_tags j @ '';'')"
    then show ?thesis by (rule no_match_after_escape)
  next
    assume "\<exists>ys'. ys = ys' @ (escape_script_tags j @ '';'') \<and> suffix ys' ''window.__ZENV_CLIENT__ = ''"
    then obtain ys' where y1: "ys = ys' @ (escape_script_tags j @ '';'')"
      and y2: "suffix ys' ''window.__ZENV_CLIENT__ = ''" by blast
    show ?thesis
    proof (cases ys')
      case Nil
      with y1 show ?thesis using no_match_after_escape [of ys j] by simp
    next
      case (Cons y ys'')
      from y2 have "set ys' \<subseteq> set ''window.__ZENV_CLIENT__ = ''"
        by (rule set_mono_suffix)
      with Cons have "y \<noteq> CHR ''<''" by auto
      with y1 Cons show ?thesis using match_needs_lt [of ys] by auto
    qed
  qed
qed

lemma script_never_closes_tag:
  "getClientEnvScript h env ps = (ev, Inr out) \<Longrightarrow> suffix ys out \<Longrightarrow>
   \<not> regex_match_here script_close_pattern ys"
proof -
  assume g: "getClientEnvScript h env ps = (ev, Inr out)" and s: "suffix ys out"
  from g have "out = [] \<or> (\<exists>j. out = ''window.__ZENV_CLIENT__ = '' @ escape_script_tags j @ '';'')"
    by (auto simp add: getClientEnvScript_def Let_def split: if_splits option.splits prod.splits sum.splits)
  then show ?thesis
  proof
    assume "out = []"
    with s show ?thesis by (simp add: script_close_pattern_def)
  next
    assume "\<exists>j. out = ''window.__ZENV_CLIENT__ = '' @ escape_script_tags j @ '';''"
    with s show ?thesis using no_match_in_script by blast
  qed
qed

text \<open>Filtering: every pair of the serialized object was read from a key that matches a prefix.\<close>

lemma plain_assign_members:
  "(k', v') \<in> set (plain_assign ce k v) \<Longrightarrow> (k', v') \<in> set ce \<or> (k' = k \<and> v' = v)"
  by (induction ce) (auto split: if_splits)

lemma collect_only_matching:
  "collect_client_env h env ps keys ce0 = (ev, Inr ce) \<Longrightarrow> (k, v) \<in> set ce \<Longrightarrow>
   (k, v) \<in> set ce0
   \<or> (k \<in> set keys \<and> startsWithAny k ps \<and> v \<noteq> JUndefined \<and> snd (proxy_get h env (PStr k)) = Inr v)"
proof (induction keys arbitrary: ce0 ev)
  case Nil
  then show ?case by simp
next
  case (Cons key keys)
  show ?case
  proof (cases "length ps > 0 \<and> list_ex (\<lambda>p. prefix p key) ps")
    case False
    with Cons.prems(1) have "collect_client_env h env ps keys ce0 = (ev, Inr ce)"
      by (auto simp add: Let_def)
    from Cons.IH [OF this Cons.prems(2)] show ?thesis by auto
  next
    case True
    obtain ev1 r1 where g: "proxy_get h env (PStr key) = (ev1, r1)" by (cases "proxy_get h env (PStr key)")
    show ?thesis
    proof (cases r1)
      case (Inl e)
      with Cons.prems True g show ?thesis by (simp add: Let_def)
    next
      case (Inr val)
      let ?ce1 = "if val \<noteq> JUndefined then plain_assign ce0 key val else ce0"
      obtain ev2 r2 where c: "collect_client_env h env ps keys ?ce1 = (ev2, r2)"
        by (cases "collect_client_env h env ps keys ?ce1")
      with Cons.prems(1) True g Inr have r2: "r2 = Inr ce"
        by (simp add: Let_def)
      from Cons.IH [OF c [unfolded r2] Cons.prems(2)]
      have "(k, v) \<in> set ?ce1
            \<or> (k \<in> set keys \<and> startsWithAny k ps \<and> v \<noteq> JUndefined \<and> snd (proxy_get h env (PStr k)) = Inr v)" .
      then show ?thesis
      proof
        assume m: "(k, v) \<in> set ?ce1"
        show ?thesis
        proof (cases "val \<noteq> JUndefined")
          case False
          with m show ?thesis by simp
        next
          case v: True
          with m have "(k, v) \<in> set (plain_assign ce0 key val)" by simp
          from plain_assign_members [OF this] show ?thesis
            using True g Inr v by (auto simp add: startsWithAny_def)
        qed
      next
        assume "k \<in> set keys \<and> startsWithAny k ps \<and> v \<noteq> JUndefined \<and> snd (proxy_get h env (PStr k)) = Inr v"
        then show ?thesis by simp
      qed
    qed
  qed
qed

lemma script_only_prefixed:
  "\<not> runtime_isClient h \<Longrightarrow> getClientEnvScript h env (Some ps) = (ev, Inr out) \<Longrightarrow>
   \<exists>ce. out = ''window.__ZENV_CLIENT__ = '' @ escape_script_tags (JSON_stringify_object ce) @ '';''
     \<and> (\<forall>(k, v) \<in> set ce. k \<in> set (Object_keys env) \<and> startsWithAny k ps \<and> v \<noteq> JUndefined
            \<and> snd (proxy_get h env (PStr k)) = Inr v)"
proof -
  assume b: "\<not> runtime_isClient h" and g: "getClientEnvScript h env (Some ps) = (ev, Inr out)"
  obtain ev1 r1 where c: "collect_client_env h env ps (Object_keys env) [] = (ev1, r1)"
    by (cases "collect_client_env h env ps (Object_keys env) []")
  from g b c obtain ce where r1: "r1 = Inr ce"
    and out: "out = ''window.__ZENV_CLIENT__ = '' @ escape_script_tags (JSON_stringify_object ce) @ '';''"
    by (cases r1) (simp_all add: getClientEnvScript_def)
  have "\<forall>(k, v) \<in> set ce. k \<in> set (Object_keys env) \<and> startsWithAny k ps \<and> v \<noteq> JUndefined
            \<and> snd (proxy_get h env (PStr k)) = Inr v"
    using collect_only_matching [OF c [unfolded r1]] by auto
  with out show ?thesis by blast
qed

text \<open>Scenario 6, for any backend runtime, any options and any metadata.\<close>

lemma expected_script_no_S: "CHR ''S'' \<notin> set expected_script \<and> CHR ''s'' \<notin> set expected_script"
  by (simp add: expected_script_def)

lemma scenario_no_trace:
  "\<not> sublist ''SECRET'' expected_script \<and> CHR ''s'' \<notin> set expected_script"
proof -
  have "\<not> sublist ''SECRET'' expected_script"
  proof
    assume "sublist ''SECRET'' expected_script"
    then have "set ''SECRET'' \<subseteq> set expected_script" by (rule set_mono_sublist)
    then have "CHR ''S'' \<in> set expected_script" by simp
    with expected_script_no_S show False by simp
  qed
  with expected_script_no_S show ?thesis by simp
qed

lemma finish_env_target:
  "p_target (finish_env h0 obj metadata options rawEnv) =
   (let t = addEnvAccessors h0 obj rawEnv
    in case o_clientSafePrefixes options of
         Some ps \<Rightarrow> obj_define t ''__clientSafePrefixes__'' (JArr (map JStr ps)) False (Some False) (Some False)
       | None \<Rightarrow> t)"
  by (simp add: finish_env_def createProtectiveProxy_def Let_def)

lemma public_secret_keys:
  "Object_keys (finish_env h0 public_secret_values metadata options rawEnv) = [''PUBLIC_X'', ''SECRET'']"
  by (cases "o_clientSafePrefixes options")
     (simp_all add: Object_keys_def proxy_ownKeys_def finish_env_target Let_def
        addEnvAccessors_def public_secret_values_def)

lemma public_secret_read:
  "\<not> runtime_isClient h \<Longrightarrow>
   proxy_get h (finish_env h0 public_secret_values metadata options rawEnv) (PStr ''PUBLIC_X'') =
   ([], Inr (JStr ''v''))"
  by (cases "o_clientSafePrefixes options")
     (simp_all add: proxy_get_def inspectables_def accessorProps_def finish_env_target Let_def
        addEnvAccessors_def public_secret_values_def)

lemma scenario_script:
  "\<not> runtime_isClient h \<Longrightarrow>
   getClientEnvScript h (finish_env h0 public_secret_values metadata options rawEnv) (Some [''PUBLIC_'']) =
   ([], Inr expected_script)"
  by (simp add: getClientEnvScript_def public_secret_keys public_secret_read
        JSON_stringify_object_def QuoteJSONString_def quote_char_def script_close_pattern_def
        expected_script_def)

lemma bootstrap_resolved:
  "snd (zenv backend_host bootstrap_spec bootstrap_options) =
   Returned (finish_env backend_host public_secret_values
      (vs_metadata (validateSpecs backend_host bootstrap_spec (Some bootstrap_source) bootstrap_options))
      bootstrap_options (Some bootstrap_source))"
  by (simp add: zenv_def Let_def env_of_def bootstrap_options_def default_options_def
        validateSpecs_def validateSpecs_body_def vs_init_def validateSingleSpec_def
        bootstrap_spec_def bootstrap_source_def public_secret_values_def
        str_def makeValidator_def backend_host_def runtime_isClient_def plain_get_def)

text \<open>
  Claim C8: on the backend, the generator applied to an environment with the resolved
  values \<open>{PUBLIC_X: "v", SECRET: "s"}\<close> and the prefix list \<open>["PUBLIC_"]\<close> returns
  exactly \<open>window.__ZENV_CLIENT__ = {"PUBLIC_X":"v"};\<close>, a text with no occurrence of
  \<open>SECRET\<close> or of \<open>s\<close>. In general, on the backend, the serialized object holds only
  pairs whose key is an enumerable key of the environment that matches a prefix, with the
  value read from the environment; and no position of any script the generator returns
  matches \<open></script>\<close> with case ignored, so the text cannot close the surrounding tag.
\<close>

theorem bootstrap_script:
  "(\<not> runtime_isClient h \<longrightarrow>
      getClientEnvScript h (finish_env h0 public_secret_values metadata options rawEnv)
        (Some [''PUBLIC_'']) = ([], Inr expected_script))
   \<and> \<not> sublist ''SECRET'' expected_script \<and> CHR ''s'' \<notin> set expected_script
   \<and> (\<forall>env ps ev out. \<not> runtime_isClient h \<longrightarrow>
          getClientEnvScript h env (Some ps) = (ev, Inr out) \<longrightarrow>
          (\<exists>ce. out = ''window.__ZENV_CLIENT__ = '' @ escape_script_tags (JSON_stringify_object ce) @ '';''
             \<and> (\<forall>(k, v) \<in> set ce. k \<in> set (Object_keys env) \<and> startsWithAny k ps
                    \<and> v \<noteq> JUndefined \<and> snd (proxy_get h env (PStr k)) = Inr v)))
   \<and> (\<forall>env ps ev out ys. getClientEnvScript h env ps = (ev, Inr out) \<longrightarrow> suffix ys out \<longrightarrow>
          \<not> regex_match_here script_close_pattern ys)"
proof -
  have a: "\<not> runtime_isClient h \<longrightarrow>
      getClientEnvScript h (finish_env h0 public_secret_values metadata options rawEnv)
        (Some [''PUBLIC_'']) = ([], Inr expected_script)"
    using scenario_script [of h h0 metadata options rawEnv] by blast
  have b: "\<not> sublist ''SECRET'' expected_script \<and> CHR ''s'' \<notin> set expected_script"
    by (rule scenario_no_trace)
  have c: "\<forall>env ps ev out. \<not> runtime_isClient h \<longrightarrow>
          getClientEnvScript h env (Some ps) = (ev, Inr out) \<longrightarrow>
          (\<exists>ce. out = ''window.__ZENV_CLIENT__ = '' @ escape_script_tags (JSON_stringify_object ce) @ '';''
             \<and> (\<forall>(k, v) \<in> set ce. k \<in> set (Object_keys env) \<and> startsWithAny k ps
                    \<and> v \<noteq> JUndefined \<and> snd (proxy_get h env (PStr k)) = Inr v))"
    using script_only_prefixed [of h] by blast
  have d: "\<forall>env ps ev out ys. getClientEnvScript h env ps = (ev, Inr out) \<longrightarrow> suffix ys out \<longrightarrow>
          \<not> regex_match_here script_close_pattern ys"
    using script_never_closes_tag [of h] by blast
  from a b c d show ?thesis by blast
qed

theorem bootstrap_script_witness:
  "\<not> runtime_isClient backend_host
   \<and> (case snd (zenv backend_host bootstrap_spec bootstrap_options) of
         Returned env \<Rightarrow>
           getClientEnvScript backend_host env (Some [''PUBLIC_'']) = ([], Inr expected_script)
       | _ \<Rightarrow> False)"
proof -
  have c: "\<not> runtime_isClient backend_host"
    by (simp add: runtime_isClient_def backend_host_def)
  from bootstrap_script [of backend_host backend_host
      "vs_metadata (validateSpecs backend_host bootstrap_spec (Some bootstrap_source) bootstrap_options)"
      bootstrap_options "Some bootstrap_source"] c
  show ?thesis by (simp add: bootstrap_resolved)
qed

section \<open>The retained client-safe prefixes\<close>

lemma strings_of_map_JStr: "strings_of (map JStr ps) = Some ps"
  by (induction ps) auto

text \<open>
  Claim C9, as the specification states it: every environment that the entry point
  returns carries an own property recording the client-safe prefixes, also when the
  option was not supplied. The code attaches the property only when the option was
  given: with the options left out, the returned environment has no own property
  \<open>__clientSafePrefixes__\<close>.
\<close>

theorem retained_prefixes_counterexample:
  "o_clientSafePrefixes default_options = None
   \<and> (case snd (zenv backend_host [] default_options) of
         Returned env \<Rightarrow> proxy_getOwnPropertyDescriptor env (PStr ''__clientSafePrefixes__'') = None
       | _ \<Rightarrow> False)"
  by (simp add: zenv_def Let_def validateSpecs_def vs_init_def finish_env_def default_options_def
        createProtectiveProxy_def addEnvAccessors_def)

text \<open>
  Claim C9, amended: every environment that the entry point returns when the
  \<open>clientSafePrefixes\<close> option was supplied carries an own, non-enumerable,
  non-writable (and non-configurable) property recording the configured prefixes, and
  the generator called without an explicit prefix list uses that retained list: it
  returns what it returns when the configured list is passed explicitly.
\<close>

theorem retained_prefixes_when_supplied:
  assumes "snd (zenv h0 specs options) = Returned env"
    and "o_clientSafePrefixes options = Some ps"
  shows "proxy_getOwnPropertyDescriptor env (PStr ''__clientSafePrefixes__'') =
           Some \<lparr>pd_value = JArr (map JStr ps), pd_enumerable = False, pd_writable = False,
                 pd_configurable = False\<rparr>
     \<and> getClientEnvScript h env None = getClientEnvScript h env (Some ps)"
proof -
  let ?st = "validateSpecs h0 specs (env_of h0 options) options"
  have env: "env = finish_env h0 (vs_result ?st) (vs_metadata ?st) options (env_of h0 options)"
    by (rule zenv_returned [OF assms(1)])
  have d: "map_of (p_target env) ''__clientSafePrefixes__'' =
           Some \<lparr>pd_value = JArr (map JStr ps), pd_enumerable = False, pd_writable = False,
                 pd_configurable = False\<rparr>"
    by (simp add: env finish_env_def createProtectiveProxy_def Let_def assms(2)
          map_of_obj_define_same)
  have g: "proxy_get h env (PStr ''__clientSafePrefixes__'') = ([], Inr (JArr (map JStr ps)))"
    by (simp add: proxy_get_def inspectables_def d)
  have "getClientEnvScript h env None = getClientEnvScript h env (Some ps)"
    by (simp add: getClientEnvScript_def g strings_of_map_JStr)
  with d show ?thesis by simp
qed

theorem retained_prefixes_when_supplied_witness:
  "o_clientSafePrefixes bootstrap_options = Some [''PUBLIC_'']
   \<and> (case snd (zenv backend_host bootstrap_spec bootstrap_options) of
         Returned env \<Rightarrow>
           getClientEnvScript backend_host env None = ([], Inr expected_script)
       | _ \<Rightarrow> False)"
proof -
  have p: "o_clientSafePrefixes bootstrap_options = Some [''PUBLIC_'']"
    by (simp add: bootstrap_options_def)
  have c: "\<not> runtime_isClient backend_host"
    by (simp add: runtime_isClient_def backend_host_def)
  have s: "getClientEnvScript backend_host (finish_env backend_host public_secret_values
      (vs_metadata (validateSpecs backend_host bootstrap_spec (Some bootstrap_source) bootstrap_options))
      bootstrap_options (Some bootstrap_source)) (Some [''PUBLIC_'']) = ([], Inr expected_script)"
    by (rule scenario_script [OF c])
  from retained_prefixes_when_supplied [OF bootstrap_resolved p, of backend_host] p s
  show ?thesis by (simp add: bootstrap_resolved)
qed

section \<open>The client transform\<close>

lemma transform_call_only_on_defined:
  "TransformCall k v \<in> set (fst (proxy_get h env prop)) \<Longrightarrow>
   v \<noteq> JUndefined \<and> v = client_value h env prop \<and> k = String_of prop
   \<and> runtime_isClient h \<and> isExposed (p_metadata env (String_of prop))"
  by (auto simp add: proxy_get_def Let_def split: if_splits option.splits)

text \<open>
  Claim C10: on a front-end read of an exposed key, the client transform is called only
  when the value about to be returned, after the client defaults were substituted, is
  not undefined. Every call of a transform that a read makes has an argument that is
  not undefined, namely that value; and on a front-end read of an exposed key that
  reaches the exposure check, an undefined value is returned as it is, with no call,
  while a defined value goes through the configured transform.
\<close>

theorem transform_never_sees_undefined:
  "(\<forall>k v. TransformCall k v \<in> set (fst (proxy_get h env prop)) \<longrightarrow>
       v \<noteq> JUndefined \<and> v = client_value h env prop)
   \<and> (runtime_isClient h \<longrightarrow> isExposed (p_metadata env (String_of prop)) \<longrightarrow>
        prop \<notin> set inspectables \<longrightarrow> String_of prop \<notin> set accessorProps \<longrightarrow>
        (target_in prop (p_target env) \<or> \<not> p_strict env) \<longrightarrow>
        (client_value h env prop = JUndefined \<longrightarrow> proxy_get h env prop = ([], Inr JUndefined))
        \<and> (client_value h env prop \<noteq> JUndefined \<longrightarrow>
             (\<forall>m c t. p_metadata env (String_of prop) = Some m \<longrightarrow> md_client m = Some c \<longrightarrow>
                cc_transform c = Some t \<longrightarrow>
                proxy_get h env prop =
                  ([TransformCall (String_of prop) (client_value h env prop)],
                   Inr (t (client_value h env prop))))))"
proof -
  have a: "\<forall>k v. TransformCall k v \<in> set (fst (proxy_get h env prop)) \<longrightarrow>
       v \<noteq> JUndefined \<and> v = client_value h env prop"
    using transform_call_only_on_defined [of _ _ h env "prop"] by blast
  have b: "runtime_isClient h \<longrightarrow> isExposed (p_metadata env (String_of prop)) \<longrightarrow>
        prop \<notin> set inspectables \<longrightarrow> String_of prop \<notin> set accessorProps \<longrightarrow>
        (target_in prop (p_target env) \<or> \<not> p_strict env) \<longrightarrow>
        (client_value h env prop = JUndefined \<longrightarrow> proxy_get h env prop = ([], Inr JUndefined))
        \<and> (client_value h env prop \<noteq> JUndefined \<longrightarrow>
             (\<forall>m c t. p_metadata env (String_of prop) = Some m \<longrightarrow> md_client m = Some c \<longrightarrow>
                cc_transform c = Some t \<longrightarrow>
                proxy_get h env prop =
                  ([TransformCall (String_of prop) (client_value h env prop)],
                   Inr (t (client_value h env prop)))))"
    by (auto simp add: proxy_get_def Let_def split: option.splits)
  from a b show ?thesis by (rule conjI)
qed

theorem transform_never_sees_undefined_witness:
  "runtime_isClient frontend_host
   \<and> proxy_get frontend_host (transform_env JUndefined) (PStr ''K'') = ([], Inr JUndefined)
   \<and> proxy_get frontend_host (transform_env (JStr ''a'')) (PStr ''K'') =
       ([TransformCall ''K'' (JStr ''a'')], Inr (JArr [JStr ''a'']))"
proof -
  have c: "runtime_isClient frontend_host"
    by (simp add: runtime_isClient_def frontend_host_def)
  from transform_never_sees_undefined [of frontend_host "transform_env JUndefined" "PStr ''K''"]
       transform_never_sees_undefined [of frontend_host "transform_env (JStr ''a'')" "PStr ''K''"] c
  show ?thesis
    by (simp add: transform_env_def upper_client_def isExposed_def empty_metadata_def
          inspectables_def accessorProps_def client_value_def plain_in_def
          object_prototype_keys_def)
qed

section \<open>Default precedence\<close>











end
